theory Spec2Isabelle
  imports Complex_Main "HOL-Library.Word"
begin

unbundle bit_operations_syntax

section \<open>Numbers and vectors\<close>

text \<open>
  The program computes in \<^verbatim>\<open>float\<close> (main.cpp, the shaders) and \<^verbatim>\<open>double\<close>
  (Noise.cpp). Numbers are \<^typ>\<open>real\<close>, with no NaN and no infinities. For
  computeBoundingSphere, the noise generator and the shader the arithmetic is exact; for
  generateCloudSpheres, where the radii depend on it, every operation is rounded to
  binary32 (see below). A C++ \<^verbatim>\<open>int\<close> is a \<^typ>\<open>32 word\<close> read with \<^term>\<open>sint\<close>.
  \<^verbatim>\<open>glm::vec3\<close> and GLSL's \<^verbatim>\<open>vec3\<close> are triples of reals, \<^verbatim>\<open>vec4\<close> a quadruple.
\<close>

type_synonym vec3 = "real \<times> real \<times> real"
type_synonym vec4 = "real \<times> real \<times> real \<times> real"
type_synonym cint = "32 word"

fun vadd :: "vec3 \<Rightarrow> vec3 \<Rightarrow> vec3" where
  "vadd (ax, ay, az) (bx, by, bz) = (ax + bx, ay + by, az + bz)"

fun vsub :: "vec3 \<Rightarrow> vec3 \<Rightarrow> vec3" where
  "vsub (ax, ay, az) (bx, by, bz) = (ax - bx, ay - by, az - bz)"

fun smul :: "real \<Rightarrow> vec3 \<Rightarrow> vec3" where
  "smul k (ax, ay, az) = (k * ax, k * ay, k * az)"

fun vdot :: "vec3 \<Rightarrow> vec3 \<Rightarrow> real" where
  "vdot (ax, ay, az) (bx, by, bz) = ax * bx + ay * by + az * bz"

definition vlength :: "vec3 \<Rightarrow> real" where
  "vlength a = sqrt (vdot a a)"

definition normalize :: "vec3 \<Rightarrow> vec3" where
  "normalize a = smul (1 / vlength a) a"

section \<open>main.cpp: the sphere set and its bounding sphere\<close>

record Sphere =
  center :: vec3
  radius :: real

datatype error = LengthError | OutOfBounds

subsection \<open>computeBoundingSphere (main.cpp, lines 91-118)\<close>

text \<open>
  The first loop lowers \<^verbatim>\<open>minP[k]\<close> and raises \<^verbatim>\<open>maxP[k]\<close> for \<^verbatim>\<open>k = 0, 1, 2\<close>;
  the three rounds of the inner loop are written out per component.
\<close>

definition minP_init :: vec3 where
  "minP_init = (1000000000, 1000000000, 1000000000)"

definition maxP_init :: vec3 where
  "maxP_init = (- 1000000000, - 1000000000, - 1000000000)"

fun extendBounds :: "Sphere \<Rightarrow> vec3 \<times> vec3 \<Rightarrow> vec3 \<times> vec3" where
  "extendBounds s ((mnx, mny, mnz), (mxx, mxy, mxz)) =
     (case center s of (cx, cy, cz) \<Rightarrow>
        ((if cx - radius s < mnx then cx - radius s else mnx,
          if cy - radius s < mny then cy - radius s else mny,
          if cz - radius s < mnz then cz - radius s else mnz),
         (if cx + radius s > mxx then cx + radius s else mxx,
          if cy + radius s > mxy then cy + radius s else mxy,
          if cz + radius s > mxz then cz + radius s else mxz)))"

definition growRadius :: "vec3 \<Rightarrow> Sphere \<Rightarrow> real \<Rightarrow> real" where
  "growRadius c s r =
     (let dist_s = vlength (vsub (center s) c) + radius s
      in if dist_s > r then dist_s else r)"

definition computeBoundingSphere :: "Sphere list \<Rightarrow> Sphere" where
  "computeBoundingSphere spheres =
     (let (minP, maxP) = fold extendBounds spheres (minP_init, maxP_init);
          c = smul 0.5 (vadd minP maxP);
          r = fold (growRadius c) spheres 0
      in \<lparr>center = c, radius = r\<rparr>)"

subsection \<open>Rounding to binary32\<close>

text \<open>
  The radii that generateCloudSpheres produces depend on how \<^verbatim>\<open>float\<close> arithmetic
  rounds, so for this function every \<^verbatim>\<open>float\<close> operation of the source is the exact
  operation followed by \<open>fl32\<close>: rounding to the nearest binary32 number (24
  significant bits, exponents from -126, subnormal numbers below), ties to the even
  significand. Each operation is rounded on its own (no fused multiply-add, no excess
  precision). The exponent range has no upper end here: overflow to infinity is not
  modelled.

  \<open>p2 e\<close> is \<open>2\<^sup>e\<close>, \<open>binade x\<close> the exponent of the binade of \<open>x\<close>, \<open>quantum x\<close> the distance
  between neighbouring binary32 numbers there, and \<open>rne\<close> rounds to the nearest
  integer, a tie to the even one.
\<close>

definition rne :: "real \<Rightarrow> int" where
  "rne y =
     (let n = \<lfloor>y\<rfloor>;
          f = y - of_int n
      in if f < 1 / 2 then n
         else if 1 / 2 < f then n + 1
         else if even n then n else n + 1)"

definition p2 :: "int \<Rightarrow> real" where
  "p2 e = 2 powr of_int e"

definition binade :: "real \<Rightarrow> int" where
  "binade x = max \<lfloor>log 2 \<bar>x\<bar>\<rfloor> (- 126)"

definition quantum :: "real \<Rightarrow> real" where
  "quantum x = p2 (binade x - 23)"

definition fl32 :: "real \<Rightarrow> real" where
  "fl32 x = (if x = 0 then 0 else of_int (rne (x / quantum x)) * quantum x)"

subsection \<open>generateCloudSpheres (main.cpp, lines 19-88)\<close>

text \<open>
  The generator draws from a static \<^verbatim>\<open>std::mt19937\<close>. The numbers it draws are inputs of
  the model: \<open>u0\<close> is the one \<^verbatim>\<open>randf()\<close> of the base sphere, and \<open>rnd i\<close> holds the
  five draws of round \<open>i\<close> of the loop, in the order the loop makes them.
  \<^verbatim>\<open>sigma_ratio\<close>, \<^verbatim>\<open>alpha\<close> and \<^verbatim>\<open>beta\<close> only shape the distributions drawn from,
  so they do not occur in the arithmetic below. The literals \<^verbatim>\<open>0.05f\<close> and \<^verbatim>\<open>0.2f\<close>
  are \<open>fl32 0.05\<close> and \<open>fl32 0.2\<close>; \<^verbatim>\<open>0.5f\<close> and \<^verbatim>\<open>2.0f\<close> are binary32 numbers
  as they stand. \<^verbatim>\<open>std::min\<close> and \<^verbatim>\<open>std::max\<close> do not round.
\<close>

record draw =
  gaussX :: real
  gaussZ :: real
  randf :: real
  gaA :: real
  gaB :: real

definition betaRand :: "real \<Rightarrow> real \<Rightarrow> draw \<Rightarrow> real" where
  "betaRand a b d = (let x = gaA d; y = gaB d in fl32 (x / fl32 (x + y)))"

text \<open>
  \<^verbatim>\<open>spheres.reserve(N)\<close> takes a \<^verbatim>\<open>size_t\<close>: the \<^verbatim>\<open>int\<close> is converted modulo \<open>2^64\<close>
  and \<^verbatim>\<open>reserve\<close> throws \<^verbatim>\<open>std::length_error\<close> beyond \<^verbatim>\<open>max_size()\<close>, which for
  a 16-byte element is \<open>(2^63 - 1) div 16\<close>.
\<close>

definition size_t_of_int :: "int \<Rightarrow> nat" where
  "size_t_of_int n = nat (n mod 2 ^ 64)"

definition sphere_max_size :: nat where
  "sphere_max_size = (2 ^ 63 - 1) div 16"

definition min_radius_of :: "real \<Rightarrow> real \<Rightarrow> real" where
  "min_radius_of L base_radius = max (fl32 (fl32 0.05 * L)) (fl32 (base_radius * fl32 0.2))"

definition max_radius_of :: "real \<Rightarrow> real \<Rightarrow> real \<Rightarrow> real \<Rightarrow> real" where
  "max_radius_of L x z y_base =
     (let dx = min x (fl32 (L - x));
          dz = min z (fl32 (L - z));
          max_radius_y = fl32 (fl32 (L - y_base) * 0.5);
          d_max = min (min dx dz) max_radius_y
      in min d_max (fl32 (0.5 * L)))"

definition clampX :: "real \<Rightarrow> real \<Rightarrow> real" where
  "clampX L g = max 0 (min L g)"

text \<open>
  The radius of line 79, \<^verbatim>\<open>min_radius + br*(max_radius - min_radius)\<close>: three
  operations, three roundings.
\<close>

definition interpolate :: "real \<Rightarrow> real \<Rightarrow> real \<Rightarrow> real" where
  "interpolate min_radius max_radius br =
     fl32 (min_radius + fl32 (br * fl32 (max_radius - min_radius)))"

text \<open>One round of the loop of lines 64-85.\<close>

definition cloudSphere :: "real \<Rightarrow> real \<Rightarrow> real \<Rightarrow> real \<Rightarrow> real \<Rightarrow> draw \<Rightarrow> Sphere" where
  "cloudSphere L delta base_radius alpha beta d =
     (let x = clampX L (gaussX d);
          z = clampX L (gaussZ d);
          y_base = fl32 (randf d * delta);
          min_radius = min_radius_of L base_radius;
          max_radius = max_radius_of L x z y_base;
          br = betaRand alpha beta d;
          r = interpolate min_radius max_radius br
      in \<lparr>center = (x, fl32 (y_base + r), z), radius = r\<rparr>)"

definition base_radius_of :: "real \<Rightarrow> real \<Rightarrow> real \<Rightarrow> real \<Rightarrow> real" where
  "base_radius_of L delta_ratio base_radius_ratio u0 =
     (let delta = fl32 (L * delta_ratio);
          base_y = fl32 (u0 * fl32 (delta / 2));
          dx = fl32 (L / 2);
          dz = fl32 (L / 2);
          max_base_radius = min (min dx dz) (fl32 (fl32 (L - base_y) * 0.5))
      in min (fl32 (L * base_radius_ratio)) max_base_radius)"

definition baseSphere :: "real \<Rightarrow> real \<Rightarrow> real \<Rightarrow> real \<Rightarrow> Sphere" where
  "baseSphere L delta_ratio base_radius_ratio u0 =
     (let delta = fl32 (L * delta_ratio);
          center2D = (fl32 (L / 2), fl32 (L / 2));
          base_y = fl32 (u0 * fl32 (delta / 2));
          base_radius = base_radius_of L delta_ratio base_radius_ratio u0
      in \<lparr>center = (fst center2D, fl32 (base_y + base_radius), snd center2D),
          radius = base_radius\<rparr>)"

definition generateCloudSpheres ::
  "real \<Rightarrow> cint \<Rightarrow> real \<Rightarrow> real \<Rightarrow> real \<Rightarrow> real \<Rightarrow> real \<Rightarrow> real \<Rightarrow> (nat \<Rightarrow> draw)
     \<Rightarrow> error + Sphere list" where
  "generateCloudSpheres L N delta_ratio sigma_ratio alpha beta base_radius_ratio u0 rnd =
     (if size_t_of_int (sint N) > sphere_max_size then Inl LengthError
      else
        (let delta = fl32 (L * delta_ratio);
             base_radius = base_radius_of L delta_ratio base_radius_ratio u0;
             s0 = baseSphere L delta_ratio base_radius_ratio u0
         in Inr (s0 # map (\<lambda>i. cloudSphere L delta base_radius alpha beta (rnd i))
                          [0 ..< nat (sint N - 1)])))"

section \<open>Noise.cpp: the permutation table and the noise texture\<close>

text \<open>
  The global \<^verbatim>\<open>int p[512]\<close> is a list of 512 integers, and part of the state that
  every call receives and returns, together with the state of the C library's
  generator. \<^verbatim>\<open>srand\<close> and \<^verbatim>\<open>rand\<close> are not code of this program: they are
  parameters. \<^verbatim>\<open>srand(seed)\<close> sets the generator's state from the seed alone, and
  \<^verbatim>\<open>rand()\<close> returns a number from 0 to \<^verbatim>\<open>RAND_MAX\<close> (a \<^typ>\<open>nat\<close>) and the next state.
\<close>

record 'r libc =
  srand :: "cint \<Rightarrow> 'r"
  rand :: "'r \<Rightarrow> nat \<times> 'r"

record 'r globals =
  p :: "int list"
  rand_state :: 'r

definition fade :: "real \<Rightarrow> real" where
  "fade t = t * t * t * (t * (t * 6 - 15) + 10)"

definition lerp :: "real \<Rightarrow> real \<Rightarrow> real \<Rightarrow> real" where
  "lerp t a b = a + t * (b - a)"

definition grad :: "int \<Rightarrow> real \<Rightarrow> real \<Rightarrow> real" where
  "grad hash x y =
     (let h = hash AND 7;
          u = (if h < 4 then x else y);
          v = (if h < 4 then y else x)
      in (if h AND 1 \<noteq> 0 then - u else u) + (if h AND 2 \<noteq> 0 then - v else v))"

text \<open>The shuffle loop of lines 38-41, from \<open>i\<close> down to 1.\<close>

fun shuffle :: "('r \<Rightarrow> nat \<times> 'r) \<Rightarrow> nat \<Rightarrow> int list \<times> 'r \<Rightarrow> int list \<times> 'r" where
  "shuffle rnd 0 (permutation, g) = (permutation, g)"
| "shuffle rnd (Suc k) (permutation, g) =
     (let i = Suc k;
          (r, g') = rnd g;
          j = r mod (i + 1)
      in shuffle rnd k (permutation[i := permutation ! j, j := permutation ! i], g'))"

definition duplicate :: "int list \<Rightarrow> nat \<Rightarrow> int list \<Rightarrow> int list" where
  "duplicate permutation i tbl = (tbl[i := permutation ! i])[i + 256 := permutation ! i]"

definition initPermutation :: "'r libc \<Rightarrow> cint \<Rightarrow> 'r globals \<Rightarrow> 'r globals" where
  "initPermutation lc seed gs =
     (let permutation = map int [0 ..< 256];
          (permutation', g') = shuffle (rand lc) 255 (permutation, srand lc seed)
      in \<lparr>p = fold (duplicate permutation') [0 ..< 256] (p gs), rand_state = g'\<rparr>)"

text \<open>
  A read of \<^verbatim>\<open>p[i]\<close>: outside the 512 entries of the array the read is out of
  bounds, which the model reports as \<^term>\<open>None\<close>.
\<close>

definition p_read :: "int list \<Rightarrow> int \<Rightarrow> int option" where
  "p_read tbl i = (if 0 \<le> i \<and> i < 512 \<and> nat i < length tbl then Some (tbl ! nat i) else None)"

definition perlin :: "int list \<Rightarrow> real \<Rightarrow> real \<Rightarrow> real option" where
  "perlin tbl x0 y0 =
     (let X = \<lfloor>x0\<rfloor> AND 255;
          Y = \<lfloor>y0\<rfloor> AND 255;
          x = x0 - of_int \<lfloor>x0\<rfloor>;
          y = y0 - of_int \<lfloor>y0\<rfloor>;
          u = fade x;
          v = fade y
      in case p_read tbl X of None \<Rightarrow> None | Some pX \<Rightarrow>
         (case p_read tbl (X + 1) of None \<Rightarrow> None | Some pX1 \<Rightarrow>
         (let A = pX + Y; B = pX1 + Y
          in case p_read tbl A of None \<Rightarrow> None | Some pA \<Rightarrow>
             (case p_read tbl B of None \<Rightarrow> None | Some pB \<Rightarrow>
             (case p_read tbl (A + 1) of None \<Rightarrow> None | Some pA1 \<Rightarrow>
             (case p_read tbl (B + 1) of None \<Rightarrow> None | Some pB1 \<Rightarrow>
                Some (lerp v (lerp u (grad pA x y) (grad pB (x - 1) y))
                             (lerp u (grad pA1 x (y - 1)) (grad pB1 (x - 1) (y - 1))))))))))"

text \<open>
  The body of the two loops of lines 84-99 for the pixel \<open>(i, j)\<close>: the byte written to
  \<^verbatim>\<open>textureData[j * width + i]\<close>. The cast to \<^verbatim>\<open>unsigned char\<close> of a number in
  \<open>[0, 255]\<close> drops the fraction.
\<close>

definition frequency :: real where
  "frequency = 8.0"

definition texel :: "int list \<Rightarrow> nat \<Rightarrow> nat \<Rightarrow> nat \<Rightarrow> nat \<Rightarrow> 8 word option" where
  "texel tbl width height i j =
     (let x = real i / real width;
          y = real j / real height
      in case perlin tbl (x * frequency) (y * frequency) of
           None \<Rightarrow> None
         | Some noiseValue \<Rightarrow>
             (let nv = (noiseValue + 1.0) / 2.0;
                  nv' = min (max nv 0.0) 1.0
              in Some (word_of_int \<lfloor>nv' * 255\<rfloor>)))"

definition writeTexel ::
  "int list \<Rightarrow> nat \<Rightarrow> nat \<Rightarrow> nat \<Rightarrow> nat \<Rightarrow> error + 8 word list \<Rightarrow> error + 8 word list" where
  "writeTexel tbl width height j i td =
     (case td of
        Inl e \<Rightarrow> Inl e
      | Inr textureData \<Rightarrow>
          (case texel tbl width height i j of
             None \<Rightarrow> Inl OutOfBounds
           | Some v \<Rightarrow> Inr (textureData[j * width + i := v])))"

definition byte_max_size :: nat where
  "byte_max_size = 2 ^ 63 - 1"

text \<open>
  \<^verbatim>\<open>std::vector<unsigned char> textureData(width * height)\<close> takes a \<^verbatim>\<open>size_t\<close>:
  a negative product is converted modulo \<open>2^64\<close> and the constructor throws
  \<^verbatim>\<open>std::length_error\<close>. The product of two \<^verbatim>\<open>int\<close>s wraps around in the model.
\<close>

definition generatePerlinNoiseTexture ::
  "'r libc \<Rightarrow> cint \<Rightarrow> cint \<Rightarrow> cint \<Rightarrow> 'r globals \<Rightarrow> (error + 8 word list) \<times> 'r globals" where
  "generatePerlinNoiseTexture lc width height seed gs =
     (let gs' = initPermutation lc seed gs;
          n = size_t_of_int (sint (width * height))
      in if n > byte_max_size then (Inl LengthError, gs')
         else
           (let w = nat (sint width);
                h = nat (sint height);
                textureData = replicate n (0 :: 8 word)
            in (fold (\<lambda>j td. fold (writeTexel (p gs') w h j) [0 ..< w] td) [0 ..< h]
                  (Inr textureData), gs')))"

section \<open>The fragment shader\<close>

text \<open>
  The uniforms are a record. \<^verbatim>\<open>uSpheres[64]\<close> is read at the indices below
  \<^verbatim>\<open>uSphereCount\<close> only; the sampler \<^verbatim>\<open>uNoiseTex\<close> is the function from a texture
  coordinate to the red channel that \<^verbatim>\<open>texture(uNoiseTex, uv).r\<close> reads. GLSL's
  built-in \<^verbatim>\<open>min\<close>, \<^verbatim>\<open>max\<close>, \<^verbatim>\<open>mix\<close>, \<^verbatim>\<open>clamp\<close>, \<^verbatim>\<open>smoothstep\<close>, \<^verbatim>\<open>length\<close>,
  \<^verbatim>\<open>normalize\<close>, \<^verbatim>\<open>dot\<close> follow the GLSL specification.
\<close>

record uniforms =
  iResolution :: "real \<times> real"
  iTime :: real
  uBoundingSphereCenter :: vec3
  uBoundingSphereRadius :: real
  uSphereCount :: cint
  uSpheres :: "nat \<Rightarrow> vec4"
  uNoiseTex :: "real \<times> real \<Rightarrow> real"

fun xyz :: "vec4 \<Rightarrow> vec3" where
  "xyz (x, y, z, w) = (x, y, z)"

fun wcomp :: "vec4 \<Rightarrow> real" where
  "wcomp (x, y, z, w) = w"

definition clamp :: "real \<Rightarrow> real \<Rightarrow> real \<Rightarrow> real" where
  "clamp x lo hi = min (max x lo) hi"

definition smoothstep :: "real \<Rightarrow> real \<Rightarrow> real \<Rightarrow> real" where
  "smoothstep edge0 edge1 x =
     (let t = clamp ((x - edge0) / (edge1 - edge0)) 0 1 in t * t * (3 - 2 * t))"

definition mix :: "vec3 \<Rightarrow> vec3 \<Rightarrow> real \<Rightarrow> vec3" where
  "mix a b t = vadd (smul (1 - t) a) (smul t b)"

subsection \<open>sdCloud and cloudDensity (lines 24-60)\<close>

definition sdCloud :: "uniforms \<Rightarrow> vec3 \<Rightarrow> real" where
  "sdCloud U pos =
     fold (\<lambda>i d.
             let c = xyz (uSpheres U i);
                 r = wcomp (uSpheres U i);
                 distSphere = vlength (vsub pos c) - r
             in min d distSphere)
          [0 ..< nat (sint (uSphereCount U))] 1000000"

definition cloudDensity :: "uniforms \<Rightarrow> vec3 \<Rightarrow> real" where
  "cloudDensity U pos =
     (let distVal = sdCloud U pos
      in if distVal > 0.0 then 0.0
         else
           (case pos of (px, py, pz) \<Rightarrow>
              (let angle = iTime U * 0.05;
                   cosA = cos angle;
                   sinA = sin angle;
                   rx = px * cosA - pz * sinA;
                   rz = px * sinA + pz * cosA;
                   noiseVal = uNoiseTex U (rx * 0.1, rz * 0.1)
               in smoothstep 0.3 1.0 noiseVal)))"

subsection \<open>The shadow loop (lines 126-137)\<close>

definition lightDir :: vec3 where
  "lightDir = normalize (1.0, 1.0, - 0.3)"

definition stepSize :: real where
  "stepSize = 0.05"

text \<open>
  \<open>shadowLoop U n lpos shadow\<close> runs the \<open>n\<close> rounds that are left of the 16; each
  \<^verbatim>\<open>break\<close> returns the shadow reached.
\<close>

fun shadowLoop :: "uniforms \<Rightarrow> nat \<Rightarrow> vec3 \<Rightarrow> real \<Rightarrow> real" where
  "shadowLoop U 0 lpos shadow = shadow"
| "shadowLoop U (Suc n) lpos shadow =
     (let lpos' = vadd lpos (smul stepSize lightDir);
          dCloud = vlength (vsub lpos' (uBoundingSphereCenter U)) - uBoundingSphereRadius U
      in if dCloud > 0.0 then shadow
         else
           (let ds = cloudDensity U lpos'
            in if ds > 0.02
               then (let shadow' = shadow * exp (- ds * 0.3)
                     in if shadow' < 0.01 then shadow' else shadowLoop U n lpos' shadow')
               else shadowLoop U n lpos' shadow))"

subsection \<open>The marching loop (lines 115-151)\<close>

definition fogColor :: vec3 where
  "fogColor = (1.0, 1.0, 1.0)"

definition lightColor :: vec3 where
  "lightColor = (1.0, 0.7, 0.5)"

definition sigma_s :: real where
  "sigma_s = 2.0"

definition sigma_a :: real where
  "sigma_a = 0.2"

definition STEPS :: nat where
  "STEPS = 64"

definition SHADOW_STEPS :: nat where
  "SHADOW_STEPS = 16"

text \<open>
  One round of the marching loop on the pair (outColor, transmittance); the flag
  says whether the round ended in the \<^verbatim>\<open>break\<close> of line 149.
\<close>

definition marchBody ::
  "uniforms \<Rightarrow> vec3 \<Rightarrow> vec3 \<Rightarrow> real \<Rightarrow> real \<Rightarrow> nat \<Rightarrow> vec3 \<times> real \<Rightarrow> (vec3 \<times> real) \<times> bool" where
  "marchBody U ro rd tNear marchStep i st =
     (case st of (outColor, transmittance) \<Rightarrow>
        (let tCurrent = tNear + real i * marchStep;
             pos = vadd ro (smul tCurrent rd);
             dens = cloudDensity U pos
         in if dens > 0.001
            then
              (let shadow = shadowLoop U SHADOW_STEPS pos 1.0;
                   scattering = smul shadow (mix fogColor lightColor 0.3);
                   stepColor = smul (dens * sigma_s * transmittance * marchStep) scattering;
                   outColor' = vadd outColor stepColor;
                   absorb = dens * (sigma_a + sigma_s) * marchStep;
                   transmittance' = transmittance * exp (- absorb)
               in ((outColor', transmittance'), transmittance' < 0.001))
            else ((outColor, transmittance), False)))"

text \<open>
  \<open>marchLoop U ro rd tNear marchStep n i st\<close> runs the loop from round \<open>i\<close> for
  at most \<open>n\<close> rounds, so \<open>marchLoop \<dots> STEPS 0\<close> is the loop of the shader and
  \<open>marchLoop \<dots> k 0\<close> is the pair it holds after its first \<open>k\<close> rounds (or at its
  \<^verbatim>\<open>break\<close>, when that came earlier).
\<close>

fun marchLoop ::
  "uniforms \<Rightarrow> vec3 \<Rightarrow> vec3 \<Rightarrow> real \<Rightarrow> real \<Rightarrow> nat \<Rightarrow> nat \<Rightarrow> vec3 \<times> real \<Rightarrow> vec3 \<times> real" where
  "marchLoop U ro rd tNear marchStep 0 i st = st"
| "marchLoop U ro rd tNear marchStep (Suc n) i st =
     (case marchBody U ro rd tNear marchStep i st of
        (st', stop) \<Rightarrow> if stop then st' else marchLoop U ro rd tNear marchStep n (Suc i) st')"

subsection \<open>main (lines 62-157)\<close>

definition background :: vec4 where
  "background = (0.6, 0.6, 0.6, 1.0)"

definition backgroundColor :: vec3 where
  "backgroundColor = (0.6, 0.6, 0.6)"

text \<open>The quantities of the ray-sphere test of lines 74-87, for a ray from \<open>ro\<close> along \<open>rd\<close>.\<close>

definition hit_b :: "uniforms \<Rightarrow> vec3 \<Rightarrow> vec3 \<Rightarrow> real" where
  "hit_b U ro rd = vdot (vsub ro (uBoundingSphereCenter U)) rd"

definition hit_det :: "uniforms \<Rightarrow> vec3 \<Rightarrow> vec3 \<Rightarrow> real" where
  "hit_det U ro rd =
     (let c = uBoundingSphereCenter U;
          R = uBoundingSphereRadius U;
          oc = vsub ro c;
          b = hit_b U ro rd;
          c2 = vdot oc oc - R * R
      in b * b - c2)"

definition hit_t1 :: "uniforms \<Rightarrow> vec3 \<Rightarrow> vec3 \<Rightarrow> real" where
  "hit_t1 U ro rd = - hit_b U ro rd - sqrt (hit_det U ro rd)"

definition hit_t2 :: "uniforms \<Rightarrow> vec3 \<Rightarrow> vec3 \<Rightarrow> real" where
  "hit_t2 U ro rd = - hit_b U ro rd + sqrt (hit_det U ro rd)"

text \<open>Lines 93-156: the march between the two intersections and the final blend.\<close>

definition marchRay :: "uniforms \<Rightarrow> vec3 \<Rightarrow> vec3 \<Rightarrow> vec4" where
  "marchRay U ro rd =
     (let tNear = max (hit_t1 U ro rd) 0.0;
          tFar = hit_t2 U ro rd;
          marchStep = (tFar - tNear) / real STEPS;
          (outColor, transmittance) =
             marchLoop U ro rd tNear marchStep STEPS 0 ((0.0, 0.0, 0.0), 1.0)
      in case vadd outColor (smul transmittance backgroundColor) of
           (fr, fg, fb) \<Rightarrow> (fr, fg, fb, 1.0))"

text \<open>Lines 73-156, for the primary ray from \<open>ro\<close> along \<open>rd\<close>.\<close>

definition shadeRay :: "uniforms \<Rightarrow> vec3 \<Rightarrow> vec3 \<Rightarrow> vec4" where
  "shadeRay U ro rd =
     (if hit_det U ro rd < 0.0 then background
      else if hit_t2 U ro rd < 0.0 then background
      else marchRay U ro rd)"

text \<open>The shader's \<^verbatim>\<open>main\<close>: the colour of the pixel at \<^verbatim>\<open>vTexCoord\<close>.\<close>

definition cameraOrigin :: "uniforms \<Rightarrow> vec3" where
  "cameraOrigin U = vadd (uBoundingSphereCenter U) (0.0, 0.0, uBoundingSphereRadius U * 2.0)"

definition cameraDir :: "uniforms \<Rightarrow> real \<times> real \<Rightarrow> vec3" where
  "cameraDir U vTexCoord =
     (case vTexCoord of (tx, ty) \<Rightarrow>
        (let uvx = tx * 2.0 - 1.0;
             uvy = ty * 2.0 - 1.0
         in normalize (uvx * uBoundingSphereRadius U, uvy * uBoundingSphereRadius U,
                       - uBoundingSphereRadius U * 2.0)))"

definition fragment_main :: "uniforms \<Rightarrow> real \<times> real \<Rightarrow> vec4" where
  "fragment_main U vTexCoord = shadeRay U (cameraOrigin U) (cameraDir U vTexCoord)"

subsection \<open>A scene for the examples\<close>

text \<open>
  One cloud sphere of radius 1 at the origin, which is its own bounding sphere, and a
  noise texture that is 1 everywhere.
\<close>

definition unit_scene :: uniforms where
  "unit_scene =
     \<lparr>iResolution = (800, 600), iTime = 3, uBoundingSphereCenter = (0, 0, 0),
      uBoundingSphereRadius = 1, uSphereCount = 1,
      uSpheres = (\<lambda>i. (0, 0, 0, 1)), uNoiseTex = (\<lambda>uv. 1)\<rparr>"

section \<open>Properties of computeBoundingSphere\<close>

lemma growRadius_ge_acc: "r \<le> fold (growRadius c) xs r"
proof (induction xs arbitrary: r)
  case Nil
  show ?case by simp
next
  case (Cons s xs)
  have "r \<le> growRadius c s r"
    by (simp add: growRadius_def Let_def)
  also have "\<dots> \<le> fold (growRadius c) xs (growRadius c s r)"
    by (rule Cons.IH)
  finally show ?case by simp
qed

lemma growRadius_covers:
  "s \<in> set xs \<Longrightarrow> vlength (vsub (center s) c) + radius s \<le> fold (growRadius c) xs r"
proof (induction xs arbitrary: r)
  case Nil
  then show ?case by simp
next
  case (Cons a xs)
  show ?case
  proof (cases "s = a")
    case True
    have "vlength (vsub (center s) c) + radius s \<le> growRadius c a r"
      using True by (simp add: growRadius_def Let_def)
    also have "\<dots> \<le> fold (growRadius c) xs (growRadius c a r)"
      by (rule growRadius_ge_acc)
    finally show ?thesis by simp
  next
    case False
    with Cons.prems have "s \<in> set xs" by simp
    from Cons.IH [OF this] show ?thesis by simp
  qed
qed

lemma computeBoundingSphere_radius:
  "radius (computeBoundingSphere spheres) =
     fold (growRadius (center (computeBoundingSphere spheres))) spheres 0"
  by (simp add: computeBoundingSphere_def Let_def split: prod.split)

text \<open>
  C1. For every non-empty sphere set, every input sphere \<open>s\<close> lies inside the sphere
  \<open>B\<close> that computeBoundingSphere returns: the distance between the two centres plus
  the radius of \<open>s\<close> is at most the radius of \<open>B\<close>. Over the reals the bound holds
  without any epsilon.
\<close>

theorem computeBoundingSphere_contains:
  assumes "spheres \<noteq> []"
  shows "\<forall>s \<in> set spheres.
           vlength (vsub (center s) (center (computeBoundingSphere spheres))) + radius s
             \<le> radius (computeBoundingSphere spheres)"
proof
  fix s
  assume "s \<in> set spheres"
  then show "vlength (vsub (center s) (center (computeBoundingSphere spheres))) + radius s
               \<le> radius (computeBoundingSphere spheres)"
    unfolding computeBoundingSphere_radius by (rule growRadius_covers)
qed

text \<open>The theorem at the set of a unit sphere at the origin and a sphere of radius 2 at (4, 0, 0).\<close>

theorem computeBoundingSphere_contains_witness:
  "[\<lparr>center = (0, 0, 0), radius = 1\<rparr>, \<lparr>center = (4, 0, 0), radius = 2\<rparr>] \<noteq> []
   \<and> vlength (vsub (0, 0, 0) (center (computeBoundingSphere
         [\<lparr>center = (0, 0, 0), radius = 1\<rparr>, \<lparr>center = (4, 0, 0), radius = 2\<rparr>]))) + 1
       \<le> radius (computeBoundingSphere
         [\<lparr>center = (0, 0, 0), radius = 1\<rparr>, \<lparr>center = (4, 0, 0), radius = 2\<rparr>])
   \<and> vlength (vsub (4, 0, 0) (center (computeBoundingSphere
         [\<lparr>center = (0, 0, 0), radius = 1\<rparr>, \<lparr>center = (4, 0, 0), radius = 2\<rparr>]))) + 2
       \<le> radius (computeBoundingSphere
         [\<lparr>center = (0, 0, 0), radius = 1\<rparr>, \<lparr>center = (4, 0, 0), radius = 2\<rparr>])"
proof -
  let ?S = "[\<lparr>center = (0, 0, 0), radius = 1\<rparr>, \<lparr>center = (4, 0, 0), radius = 2\<rparr>] :: Sphere list"
  have ne: "?S \<noteq> []"
    by simp
  from computeBoundingSphere_contains [OF ne] ne show ?thesis
    by simp
qed

text \<open>
  C4, as the claim states it, fails: on the empty set computeBoundingSphere reports
  nothing and returns the sphere built from the unmodified extrema \<open>1e9\<close> and \<open>-1e9\<close>.
\<close>

theorem computeBoundingSphere_empty_counterexample:
  "computeBoundingSphere [] = \<lparr>center = smul 0.5 (vadd minP_init maxP_init), radius = 0\<rparr>"
  by (simp add: computeBoundingSphere_def)

text \<open>
  C4, amended. computeBoundingSphere called on an empty sphere set does not fail: it
  returns the sphere with centre (0, 0, 0), the midpoint of the unmodified extrema, and
  radius 0.
\<close>

theorem computeBoundingSphere_empty:
  "center (computeBoundingSphere []) = (0, 0, 0) \<and> radius (computeBoundingSphere []) = 0"
  by (simp add: computeBoundingSphere_def minP_init_def maxP_init_def)

section \<open>Properties of the rounding to binary32\<close>

text \<open>
  Rounding is monotone, symmetric, leaves binary32 numbers as they are (so rounding
  twice is rounding once), and moves a number by at most half a quantum: by at most
  \<open>\<bar>x\<bar> / 2^24 + 1 / 2^150\<close>.
\<close>

lemma rne_of_int [simp]: "rne (of_int n) = n"
  by (simp add: rne_def)

lemma rne_bounds: "\<lfloor>y\<rfloor> \<le> rne y" "rne y \<le> \<lfloor>y\<rfloor> + 1"
  by (simp_all add: rne_def Let_def)

lemma rne_mono:
  assumes "x \<le> y"
  shows "rne x \<le> rne y"
proof (cases "\<lfloor>x\<rfloor> = \<lfloor>y\<rfloor>")
  case True
  then show ?thesis using assms by (auto simp: rne_def Let_def)
next
  case False
  with assms have "\<lfloor>x\<rfloor> < \<lfloor>y\<rfloor>" using floor_mono [OF assms] by simp
  then have "rne x \<le> \<lfloor>y\<rfloor>" using rne_bounds(2) [of x] by simp
  also have "\<dots> \<le> rne y" by (rule rne_bounds)
  finally show ?thesis .
qed

lemma rne_minus: "rne (- y) = - rne y"
proof (cases "y = of_int \<lfloor>y\<rfloor>")
  case True
  then obtain n where "y = of_int n" ..
  then show ?thesis by (simp flip: of_int_minus)
next
  case False
  then have fl: "\<lfloor>- y\<rfloor> = - \<lfloor>y\<rfloor> - 1"
    by (simp add: floor_minus ceiling_altdef)
  show ?thesis
    by (auto simp: rne_def Let_def fl)
qed

lemma rne_error: "\<bar>of_int (rne y) - y\<bar> \<le> 1 / 2"
proof -
  have "of_int \<lfloor>y\<rfloor> \<le> y" "y < of_int \<lfloor>y\<rfloor> + 1" by linarith+
  then show ?thesis by (auto simp: rne_def Let_def)
qed

lemma p2_pos [simp]: "0 < p2 e"
  by (simp add: p2_def)

lemma p2_nonneg [simp]: "0 \<le> p2 e"
  by (simp add: p2_def)

lemma p2_neq0 [simp]: "p2 e \<noteq> 0"
  by (simp add: p2_def)

lemma p2_add: "p2 (a + b) = p2 a * p2 b"
  by (simp add: p2_def powr_add)

lemma p2_nat: "p2 (int n) = 2 ^ n"
  by (simp add: p2_def powr_realpow)

lemma p2_mono: "a \<le> b \<Longrightarrow> p2 a \<le> p2 b"
  unfolding p2_def by (intro powr_mono) simp_all

lemma quantum_pos [simp]: "0 < quantum x"
  by (simp add: quantum_def)

lemma quantum_nonneg [simp]: "0 \<le> quantum x"
  by (simp add: quantum_def)

lemma quantum_neq0 [simp]: "quantum x \<noteq> 0"
  by (simp add: quantum_def)

lemma binade_minus [simp]: "binade (- x) = binade x"
  by (simp add: binade_def)

lemma quantum_minus [simp]: "quantum (- x) = quantum x"
  by (simp add: quantum_def)

lemma fl32_zero [simp]: "fl32 0 = 0"
  by (simp add: fl32_def)

lemma fl32_minus: "fl32 (- x) = - fl32 x"
  by (simp add: fl32_def rne_minus)

lemma floor_log2_bounds:
  assumes "x \<noteq> 0"
  shows "p2 \<lfloor>log 2 \<bar>x\<bar>\<rfloor> \<le> \<bar>x\<bar>"
    and "\<bar>x\<bar> < p2 (\<lfloor>log 2 \<bar>x\<bar>\<rfloor> + 1)"
proof -
  have pos: "0 < \<bar>x\<bar>" using assms by simp
  have "of_int \<lfloor>log 2 \<bar>x\<bar>\<rfloor> \<le> log 2 \<bar>x\<bar>" by simp
  then show "p2 \<lfloor>log 2 \<bar>x\<bar>\<rfloor> \<le> \<bar>x\<bar>"
    unfolding p2_def by (subst (asm) le_log_iff) (use pos in simp_all)
  have "log 2 \<bar>x\<bar> < of_int (\<lfloor>log 2 \<bar>x\<bar>\<rfloor> + 1)" by linarith
  then show "\<bar>x\<bar> < p2 (\<lfloor>log 2 \<bar>x\<bar>\<rfloor> + 1)"
    unfolding p2_def by (subst (asm) log_less_iff) (use pos in simp_all)
qed

lemma floor_log2_eq:
  assumes "p2 e \<le> \<bar>x\<bar>" "\<bar>x\<bar> < p2 (e + 1)"
  shows "\<lfloor>log 2 \<bar>x\<bar>\<rfloor> = e"
proof -
  have pos: "0 < \<bar>x\<bar>"
    using p2_pos [of e] assms(1) by linarith
  have "of_int e \<le> log 2 \<bar>x\<bar>"
    by (subst le_log_iff) (use assms(1) pos in \<open>simp_all add: p2_def\<close>)
  moreover have "log 2 \<bar>x\<bar> < of_int (e + 1)"
    by (subst log_less_iff) (use assms(2) pos in \<open>simp_all add: p2_def\<close>)
  ultimately show ?thesis by linarith
qed

lemma binade_upper:
  assumes "x \<noteq> 0"
  shows "\<bar>x\<bar> < p2 (binade x + 1)"
proof -
  have "\<lfloor>log 2 \<bar>x\<bar>\<rfloor> + 1 \<le> binade x + 1" by (simp add: binade_def)
  then have "p2 (\<lfloor>log 2 \<bar>x\<bar>\<rfloor> + 1) \<le> p2 (binade x + 1)"
    by (rule p2_mono)
  with floor_log2_bounds(2) [OF assms] show ?thesis by (rule less_le_trans)
qed

lemma binade_lower:
  assumes "x \<noteq> 0" "- 126 < binade x"
  shows "p2 (binade x) \<le> \<bar>x\<bar>"
proof -
  from assms(2) have "binade x = \<lfloor>log 2 \<bar>x\<bar>\<rfloor>"
    by (simp add: binade_def max_def split: if_splits)
  with floor_log2_bounds(1) [OF assms(1)] show ?thesis by simp
qed

lemma binade_mono:
  assumes "x \<noteq> 0" "\<bar>x\<bar> \<le> \<bar>y\<bar>"
  shows "binade x \<le> binade y"
proof -
  have "log 2 \<bar>x\<bar> \<le> log 2 \<bar>y\<bar>" using assms by simp
  then have "\<lfloor>log 2 \<bar>x\<bar>\<rfloor> \<le> \<lfloor>log 2 \<bar>y\<bar>\<rfloor>" by (rule floor_mono)
  then show ?thesis by (simp add: binade_def)
qed

lemma quantum_scale: "2 ^ n * quantum x = p2 (binade x - 23 + int n)"
  by (simp add: quantum_def p2_add p2_nat)

lemma fl32_nonneg:
  assumes "0 \<le> x"
  shows "0 \<le> fl32 x"
proof -
  have "0 \<le> x / quantum x" using assms by (intro divide_nonneg_pos) simp_all
  then have "0 \<le> \<lfloor>x / quantum x\<rfloor>" by simp
  with rne_bounds(1) [of "x / quantum x"] have "0 \<le> rne (x / quantum x)" by linarith
  then have "0 \<le> of_int (rne (x / quantum x)) * quantum x"
    by (intro mult_nonneg_nonneg) simp_all
  then show ?thesis by (simp add: fl32_def)
qed

lemma fl32_upper:
  assumes "0 < x"
  shows "fl32 x \<le> p2 (binade x + 1)"
proof -
  have x0: "x \<noteq> 0" using assms by simp
  have s: "2 ^ 24 * quantum x = p2 (binade x + 1)"
    using quantum_scale [of 24 x] by (simp add: algebra_simps)
  have "x < p2 (binade x + 1)" using binade_upper [OF x0] assms by simp
  then have "x < 2 ^ 24 * quantum x" using s by simp
  then have "x / quantum x < 2 ^ 24" by (simp add: pos_divide_less_eq)
  then have "x / quantum x < of_int (2 ^ 24)" by simp
  then have "\<lfloor>x / quantum x\<rfloor> < 2 ^ 24" by (simp only: floor_less_iff)
  with rne_bounds(2) [of "x / quantum x"] have "rne (x / quantum x) \<le> 2 ^ 24" by linarith
  then have "of_int (rne (x / quantum x)) \<le> (of_int (2 ^ 24) :: real)"
    by (simp only: of_int_le_iff)
  then have le: "of_int (rne (x / quantum x)) * quantum x \<le> 2 ^ 24 * quantum x"
    by (intro mult_right_mono) simp_all
  have "fl32 x = of_int (rne (x / quantum x)) * quantum x" using x0 by (simp add: fl32_def)
  also note le
  also note s
  finally show ?thesis .
qed

lemma fl32_lower:
  assumes "0 < x" "- 126 < binade x"
  shows "p2 (binade x) \<le> fl32 x"
proof -
  have x0: "x \<noteq> 0" using assms by simp
  have s: "2 ^ 23 * quantum x = p2 (binade x)"
    using quantum_scale [of 23 x] by (simp add: algebra_simps)
  have "p2 (binade x) \<le> x" using binade_lower [OF x0 assms(2)] assms(1) by simp
  then have "2 ^ 23 * quantum x \<le> x" using s by simp
  then have "2 ^ 23 \<le> x / quantum x" by (simp add: pos_le_divide_eq)
  then have "of_int (2 ^ 23) \<le> x / quantum x" by simp
  then have "2 ^ 23 \<le> \<lfloor>x / quantum x\<rfloor>" by (simp only: le_floor_iff)
  with rne_bounds(1) [of "x / quantum x"] have "2 ^ 23 \<le> rne (x / quantum x)" by linarith
  then have "(of_int (2 ^ 23) :: real) \<le> of_int (rne (x / quantum x))"
    by (simp only: of_int_le_iff)
  then have le: "2 ^ 23 * quantum x \<le> of_int (rne (x / quantum x)) * quantum x"
    by (intro mult_right_mono) simp_all
  have "p2 (binade x) = 2 ^ 23 * quantum x" by (rule s [symmetric])
  also note le
  also have "of_int (rne (x / quantum x)) * quantum x = fl32 x" using x0 by (simp add: fl32_def)
  finally show ?thesis .
qed

lemma fl32_mono_pos:
  assumes "0 < x" "x \<le> y"
  shows "fl32 x \<le> fl32 y"
proof -
  have x0: "x \<noteq> 0" and y0: "y \<noteq> 0" and ypos: "0 < y" using assms by simp_all
  have b: "binade x \<le> binade y" using binade_mono [OF x0, of y] assms by simp
  show ?thesis
  proof (cases "binade x = binade y")
    case True
    then have q: "quantum x = quantum y" by (simp add: quantum_def)
    have "x / quantum y \<le> y / quantum y" using assms(2) by (intro divide_right_mono) simp_all
    then have "rne (x / quantum y) \<le> rne (y / quantum y)" by (rule rne_mono)
    then have "of_int (rne (x / quantum y)) * quantum y \<le> of_int (rne (y / quantum y)) * quantum y"
      by (intro mult_right_mono) simp_all
    then show ?thesis using x0 y0 q by (simp add: fl32_def)
  next
    case False
    with b have lt: "binade x + 1 \<le> binade y" by simp
    have "- 126 \<le> binade x" by (simp add: binade_def)
    with lt have n: "- 126 < binade y" by simp
    have "fl32 x \<le> p2 (binade x + 1)" by (rule fl32_upper [OF assms(1)])
    also have "\<dots> \<le> p2 (binade y)" using lt by (rule p2_mono)
    also have "\<dots> \<le> fl32 y" by (rule fl32_lower [OF ypos n])
    finally show ?thesis .
  qed
qed

lemma fl32_mono:
  assumes "x \<le> y"
  shows "fl32 x \<le> fl32 y"
proof -
  consider "0 < x" | "x \<le> 0" "0 \<le> y" | "y < 0" by linarith
  then show ?thesis
  proof cases
    case 1
    then show ?thesis using assms by (rule fl32_mono_pos)
  next
    case 2
    have "0 \<le> fl32 (- x)" using 2(1) by (intro fl32_nonneg) simp
    then have "fl32 x \<le> 0" by (simp add: fl32_minus)
    also have "0 \<le> fl32 y" using 2(2) by (rule fl32_nonneg)
    finally show ?thesis .
  next
    case 3
    then have "0 < - y" "- y \<le> - x" using assms by simp_all
    then have "fl32 (- y) \<le> fl32 (- x)" by (rule fl32_mono_pos)
    then show ?thesis by (simp add: fl32_minus)
  qed
qed

lemma p2_less_cancel: "p2 a < p2 b \<Longrightarrow> a < b"
  using p2_mono [of b a] by (cases "a < b") simp_all

lemma p2_numeral: "p2 (numeral n) = 2 ^ numeral n"
  using p2_nat [of "numeral n"] by simp

lemma p2_neg_numeral: "p2 (- numeral n) = 1 / 2 ^ numeral n"
  by (simp add: p2_def powr_neg_numeral)

lemma p2_0: "p2 0 = 1"
  by (simp add: p2_def)

lemma p2_1: "p2 1 = 2"
  by (simp add: p2_def)

lemma p2_minus_1: "p2 (- 1) = 1 / 2"
  by (simp add: p2_def powr_minus_divide)

lemma p2_diff: "p2 (a - b) = p2 a / p2 b"
  by (simp add: p2_def powr_diff)

lemma binade_ge: "- 126 \<le> binade x"
  by (simp add: binade_def)

lemma scaled_div:
  fixes q :: real
  assumes "q \<noteq> 0" "x = a * (q * b)"
  shows "x / q = a * b"
  using assms by simp

lemma fl32_exact:
  assumes "\<bar>m\<bar> < 2 ^ 24" "- 149 \<le> e"
  shows "fl32 (of_int m * p2 e) = of_int m * p2 e"
proof (cases "m = 0")
  case True
  then show ?thesis by simp
next
  case False
  define x where "x = of_int m * p2 e"
  have x0: "x \<noteq> 0" using False by (simp add: x_def)
  have "\<bar>x\<bar> = of_int \<bar>m\<bar> * p2 e" by (simp add: x_def abs_mult)
  also have "\<dots> < of_int (2 ^ 24) * p2 e"
    using assms(1) by (intro mult_strict_right_mono) (simp_all only: of_int_less_iff p2_pos)
  also have "\<dots> = p2 (e + 24)" using p2_nat [of 24] by (simp add: p2_add)
  finally have ub: "\<bar>x\<bar> < p2 (e + 24)" .
  have "p2 \<lfloor>log 2 \<bar>x\<bar>\<rfloor> < p2 (e + 24)"
    using floor_log2_bounds(1) [OF x0] ub by (rule le_less_trans)
  then have "\<lfloor>log 2 \<bar>x\<bar>\<rfloor> < e + 24" by (rule p2_less_cancel)
  with assms(2) have b: "binade x \<le> e + 23" by (simp add: binade_def)
  define k where "k = nat (e + 23 - binade x)"
  have e: "e = (binade x - 23) + int k" using b by (simp add: k_def)
  have pe: "p2 e = quantum x * 2 ^ k"
    by (subst e) (simp add: p2_add p2_nat quantum_def)
  have "x = of_int m * p2 e" by (rule x_def)
  also have "\<dots> = of_int m * (quantum x * 2 ^ k)" by (rule arg_cong [OF pe])
  finally have xq: "x = of_int m * (quantum x * 2 ^ k)" .
  have "x / quantum x = of_int m * 2 ^ k"
    by (rule scaled_div [OF quantum_neq0 xq])
  also have "\<dots> = of_int (m * 2 ^ k)" by simp
  finally have "rne (x / quantum x) = m * 2 ^ k" by (simp only: rne_of_int)
  then have "fl32 x = of_int (m * 2 ^ k) * quantum x" using x0 by (simp add: fl32_def)
  also have "\<dots> = of_int m * (quantum x * 2 ^ k)" by simp
  also have "\<dots> = x" by (rule xq [symmetric])
  finally show ?thesis by (simp only: x_def)
qed

lemma rne_quantum_bound:
  assumes "x \<noteq> 0"
  shows "\<bar>rne (x / quantum x)\<bar> \<le> 2 ^ 24"
proof -
  have s: "2 ^ 24 * quantum x = p2 (binade x + 1)"
    using quantum_scale [of 24 x] by (simp add: algebra_simps)
  have "\<bar>x\<bar> < 2 ^ 24 * quantum x" using binade_upper [OF assms] s by simp
  then have "\<bar>x\<bar> / quantum x < 2 ^ 24" by (simp add: pos_divide_less_eq)
  then have a: "\<bar>x\<bar> / quantum x < of_int (2 ^ 24)" by simp
  have "x / quantum x \<le> \<bar>x\<bar> / quantum x" "- \<bar>x\<bar> / quantum x \<le> x / quantum x"
    by (intro divide_right_mono; simp)+
  with a have "x / quantum x < of_int (2 ^ 24)" "of_int (- (2 ^ 24)) < x / quantum x"
    by simp_all
  then have "\<lfloor>x / quantum x\<rfloor> < 2 ^ 24" "- (2 ^ 24) \<le> \<lfloor>x / quantum x\<rfloor>"
    by (simp_all only: floor_less_iff le_floor_iff less_imp_le)
  with rne_bounds [of "x / quantum x"] show ?thesis by linarith
qed

lemma fl32_idem: "fl32 (fl32 x) = fl32 x"
proof (cases "x = 0")
  case True
  then show ?thesis by simp
next
  case False
  define n where "n = rne (x / quantum x)"
  have v: "fl32 x = of_int n * p2 (binade x - 23)"
    using False by (simp add: fl32_def n_def quantum_def)
  have n: "\<bar>n\<bar> \<le> 2 ^ 24" unfolding n_def by (rule rne_quantum_bound [OF False])
  have e: "- 149 \<le> binade x - 23" using binade_ge [of x] by simp
  show ?thesis
  proof (cases "\<bar>n\<bar> < 2 ^ 24")
    case True
    from fl32_exact [OF True e] show ?thesis by (simp add: v)
  next
    case False
    with n have "\<bar>n\<bar> = 2 ^ 24" by simp
    then obtain s :: int where s: "n = s * 2" "\<bar>s\<bar> < 2 ^ 24"
      by (cases "0 \<le> n") (auto intro: that [of "2 ^ 23"] that [of "- (2 ^ 23)"])
    have "p2 (binade x - 22) = 2 * p2 (binade x - 23)"
      using p2_add [of "binade x - 23" 1] by (simp add: p2_1)
    then have v': "fl32 x = of_int s * p2 (binade x - 22)" by (simp add: v s(1))
    have e': "- 149 \<le> binade x - 22" using binade_ge [of x] by simp
    from fl32_exact [OF s(2) e'] show ?thesis by (simp add: v')
  qed
qed

lemma fl32_error_quantum: "\<bar>fl32 x - x\<bar> \<le> quantum x / 2"
proof (cases "x = 0")
  case True
  then show ?thesis by simp
next
  case False
  have "fl32 x - x = (of_int (rne (x / quantum x)) - x / quantum x) * quantum x"
    using False by (simp add: fl32_def algebra_simps)
  then have "\<bar>fl32 x - x\<bar> = \<bar>of_int (rne (x / quantum x)) - x / quantum x\<bar> * quantum x"
    by (simp add: abs_mult)
  also have "\<dots> \<le> 1 / 2 * quantum x"
    by (intro mult_right_mono rne_error) simp
  finally show ?thesis by simp
qed

lemma fl32_error: "\<bar>fl32 x - x\<bar> \<le> \<bar>x\<bar> / 2 ^ 24 + 1 / 2 ^ 150"
proof (cases "x = 0")
  case True
  then show ?thesis by simp
next
  case False
  show ?thesis
  proof (cases "- 126 < binade x")
    case True
    have "2 ^ 23 * quantum x = p2 (binade x)"
      using quantum_scale [of 23 x] by (simp add: algebra_simps)
    with binade_lower [OF False True] have "2 ^ 23 * quantum x \<le> \<bar>x\<bar>" by simp
    then have "quantum x / 2 \<le> \<bar>x\<bar> / 2 ^ 24" by simp
    moreover have "(0 :: real) \<le> 1 / 2 ^ 150" by simp
    ultimately show ?thesis using fl32_error_quantum [of x] by linarith
  next
    case False
    with binade_ge [of x] have "binade x = - 126" by simp
    then have "quantum x = 1 / 2 ^ 149" by (simp add: quantum_def p2_neg_numeral)
    then have q: "quantum x / 2 = 1 / 2 ^ 150" by simp
    have "\<bar>fl32 x - x\<bar> \<le> 1 / 2 ^ 150"
      using fl32_error_quantum [of x] unfolding q .
    moreover have "0 \<le> \<bar>x\<bar> / 2 ^ 24" by simp
    ultimately show ?thesis by linarith
  qed
qed

lemma fl32_eval:
  assumes "p2 e \<le> \<bar>x\<bar>" "\<bar>x\<bar> < p2 (e + 1)" "- 126 \<le> e"
  shows "fl32 x = of_int (rne (x / p2 (e - 23))) * p2 (e - 23)"
proof -
  have "0 < \<bar>x\<bar>" using p2_pos [of e] assms(1) by linarith
  then have x0: "x \<noteq> 0" by simp
  have "binade x = e" using floor_log2_eq [OF assms(1,2)] assms(3) by (simp add: binade_def)
  then show ?thesis using x0 by (simp add: fl32_def quantum_def)
qed

lemma fl32_1: "fl32 1 = 1"
  using fl32_exact [of 1 0] by (simp add: p2_0)

lemma fl32_half: "fl32 (1 / 2) = 1 / 2"
  using fl32_exact [of 1 "- 1"] by (simp add: p2_def powr_minus)

section \<open>Properties of generateCloudSpheres\<close>

lemma generateCloudSpheres_nth:
  assumes "generateCloudSpheres L N dr sr al be brr u0 rnd = Inr spheres"
    and "1 \<le> k" and "k < length spheres"
  shows "spheres ! k =
           cloudSphere L (fl32 (L * dr)) (base_radius_of L dr brr u0) al be (rnd (k - 1))"
proof -
  from assms(1) have sp: "spheres = baseSphere L dr brr u0 #
      map (\<lambda>i. cloudSphere L (fl32 (L * dr)) (base_radius_of L dr brr u0) al be (rnd i))
        [0 ..< nat (sint N - 1)]"
    by (auto simp: generateCloudSpheres_def Let_def split: if_splits)
  from assms(2) obtain m where k: "k = Suc m" by (cases k) auto
  with assms(3) sp have "m < nat (sint N - 1)" by simp
  then show ?thesis using sp k by simp
qed

lemma radius_cloudSphere:
  "radius (cloudSphere L delta base_radius alpha beta d) =
     interpolate (min_radius_of L base_radius)
       (max_radius_of L (clampX L (gaussX d)) (clampX L (gaussZ d)) (fl32 (randf d * delta)))
       (betaRand alpha beta d)"
  by (simp add: cloudSphere_def Let_def)

text \<open>
  \<^verbatim>\<open>br\<close> lies in \<open>[0, 1]\<close>, both ends included: \<open>x + y\<close> can round to \<open>x\<close>, and the
  quotient can round to 0.
\<close>

lemma betaRand_range:
  assumes "0 < gaA d" "0 < gaB d" "fl32 (gaA d) = gaA d"
  shows "0 \<le> betaRand a b d" "betaRand a b d \<le> 1"
proof -
  have "fl32 (gaA d) \<le> fl32 (gaA d + gaB d)" using assms(2) by (intro fl32_mono) simp
  then have s: "gaA d \<le> fl32 (gaA d + gaB d)" by (simp only: assms(3))
  with assms(1) have pos: "0 < fl32 (gaA d + gaB d)" by linarith
  have "0 \<le> gaA d / fl32 (gaA d + gaB d)"
    using assms(1) pos by (intro divide_nonneg_pos) simp_all
  then show "0 \<le> betaRand a b d"
    unfolding betaRand_def Let_def by (rule fl32_nonneg)
  have "gaA d / fl32 (gaA d + gaB d) \<le> 1" using s pos by simp
  then have "fl32 (gaA d / fl32 (gaA d + gaB d)) \<le> fl32 1" by (rule fl32_mono)
  then show "betaRand a b d \<le> 1"
    unfolding betaRand_def Let_def by (simp only: fl32_1)
qed

lemma interpolate_degenerate:
  assumes "0 \<le> t" "t \<le> 1" "fl32 mn = mn" "mx \<le> mn"
  shows "interpolate mn mx 1 \<le> interpolate mn mx t" "interpolate mn mx t \<le> mn"
proof -
  have "fl32 (mx - mn) \<le> fl32 0" using assms(4) by (intro fl32_mono) simp
  then have d: "fl32 (mx - mn) \<le> 0" by simp
  have "t * fl32 (mx - mn) \<le> 0" using assms(1) d by (rule mult_nonneg_nonpos)
  then have "fl32 (t * fl32 (mx - mn)) \<le> fl32 0" by (rule fl32_mono)
  then have "mn + fl32 (t * fl32 (mx - mn)) \<le> mn" by simp
  then have "fl32 (mn + fl32 (t * fl32 (mx - mn))) \<le> fl32 mn" by (rule fl32_mono)
  then show "interpolate mn mx t \<le> mn" by (simp only: interpolate_def assms(3))
  have "1 * fl32 (mx - mn) \<le> t * fl32 (mx - mn)"
    using assms(2) d by (rule mult_right_mono_neg)
  then have "fl32 (1 * fl32 (mx - mn)) \<le> fl32 (t * fl32 (mx - mn))" by (rule fl32_mono)
  then have "mn + fl32 (1 * fl32 (mx - mn)) \<le> mn + fl32 (t * fl32 (mx - mn))" by simp
  then show "interpolate mn mx 1 \<le> interpolate mn mx t"
    unfolding interpolate_def by (rule fl32_mono)
qed

lemma interpolate_regular:
  assumes "0 \<le> t" "t \<le> 1" "fl32 mn = mn" "mn \<le> mx"
  shows "mn \<le> interpolate mn mx t" "interpolate mn mx t \<le> interpolate mn mx 1"
proof -
  have "fl32 0 \<le> fl32 (mx - mn)" using assms(4) by (intro fl32_mono) simp
  then have d: "0 \<le> fl32 (mx - mn)" by simp
  have "0 \<le> t * fl32 (mx - mn)" using assms(1) d by (rule mult_nonneg_nonneg)
  then have "fl32 0 \<le> fl32 (t * fl32 (mx - mn))" by (rule fl32_mono)
  then have "mn \<le> mn + fl32 (t * fl32 (mx - mn))" by simp
  then have "fl32 mn \<le> fl32 (mn + fl32 (t * fl32 (mx - mn)))" by (rule fl32_mono)
  then show "mn \<le> interpolate mn mx t" by (simp only: interpolate_def assms(3))
  have "t * fl32 (mx - mn) \<le> 1 * fl32 (mx - mn)"
    using assms(2) d by (rule mult_right_mono)
  then have "fl32 (t * fl32 (mx - mn)) \<le> fl32 (1 * fl32 (mx - mn))" by (rule fl32_mono)
  then have "mn + fl32 (t * fl32 (mx - mn)) \<le> mn + fl32 (1 * fl32 (mx - mn))" by simp
  then show "interpolate mn mx t \<le> interpolate mn mx 1"
    unfolding interpolate_def by (rule fl32_mono)
qed

lemma interpolate_nonneg:
  assumes "0 \<le> t" "t \<le> 1" "fl32 mn = mn" "0 \<le> mx" "mx \<le> mn"
  shows "0 \<le> interpolate mn mx t"
proof -
  have "fl32 (- mn) \<le> fl32 (mx - mn)" using assms(4) by (intro fl32_mono) simp
  then have lo: "- mn \<le> fl32 (mx - mn)" by (simp add: fl32_minus assms(3))
  have "fl32 (mx - mn) \<le> fl32 0" using assms(5) by (intro fl32_mono) simp
  then have d: "fl32 (mx - mn) \<le> 0" by simp
  have "1 * fl32 (mx - mn) \<le> t * fl32 (mx - mn)"
    using assms(2) d by (rule mult_right_mono_neg)
  with lo have "- mn \<le> t * fl32 (mx - mn)" by simp
  then have "fl32 (- mn) \<le> fl32 (t * fl32 (mx - mn))" by (rule fl32_mono)
  then have "0 \<le> mn + fl32 (t * fl32 (mx - mn))" by (simp add: fl32_minus assms(3))
  then have "fl32 0 \<le> fl32 (mn + fl32 (t * fl32 (mx - mn)))" by (rule fl32_mono)
  then show ?thesis by (simp add: interpolate_def)
qed

lemma clampX_range: "0 \<le> L \<Longrightarrow> 0 \<le> clampX L g \<and> clampX L g \<le> L"
  by (simp add: clampX_def)

lemma fl32_max: "fl32 (max (fl32 a) (fl32 b)) = max (fl32 a) (fl32 b)"
  by (simp add: max_def fl32_idem)

lemma min_radius_of_float: "fl32 (min_radius_of L B) = min_radius_of L B"
  unfolding min_radius_of_def by (rule fl32_max)

lemma max_radius_of_nonneg:
  assumes "0 \<le> L" "0 \<le> x" "x \<le> L" "0 \<le> z" "z \<le> L" "y_base \<le> L"
  shows "0 \<le> max_radius_of L x z y_base"
proof -
  have "0 \<le> fl32 (L - x)" "0 \<le> fl32 (L - z)" "0 \<le> fl32 (L - y_base)" "0 \<le> fl32 (0.5 * L)"
    using assms by (simp_all add: fl32_nonneg)
  moreover from this have "0 \<le> fl32 (fl32 (L - y_base) * 0.5)"
    by (intro fl32_nonneg) simp
  ultimately show ?thesis using assms(2,4) by (simp add: max_radius_of_def Let_def)
qed

lemma max_radius_of_le: "max_radius_of L x z y_base \<le> fl32 (0.5 * L)"
  unfolding max_radius_of_def Let_def by (rule min.cobounded2)

lemma y_base_le:
  assumes "0 \<le> L" "fl32 L = L" "0 \<le> dr" "dr \<le> 1" "0 \<le> u" "u \<le> 1"
  shows "fl32 (u * fl32 (L * dr)) \<le> L"
proof -
  have "L * dr \<le> L * 1" using assms(4,1) by (rule mult_left_mono)
  then have "fl32 (L * dr) \<le> fl32 L" by (intro fl32_mono) simp
  then have d: "fl32 (L * dr) \<le> L" by (simp only: assms(2))
  have d0: "0 \<le> fl32 (L * dr)" using assms(1,3) by (intro fl32_nonneg) simp
  have "u * fl32 (L * dr) \<le> 1 * fl32 (L * dr)" using assms(6) d0 by (rule mult_right_mono)
  then have "fl32 (u * fl32 (L * dr)) \<le> fl32 (fl32 (L * dr))" by (intro fl32_mono) simp
  with d show ?thesis by (simp add: fl32_idem)
qed

lemma fl32_above:
  assumes "0 \<le> x"
  shows "fl32 x \<le> x + (x / 2 ^ 24 + 1 / 2 ^ 150)"
  using fl32_error [of x] assms by linarith

lemma fl32_below:
  assumes "0 \<le> x"
  shows "x - (x / 2 ^ 24 + 1 / 2 ^ 150) \<le> fl32 x"
  using fl32_error [of x] assms by linarith

lemma two_roundings:
  fixes S M A E1 E2 T eta :: real
  assumes "S \<le> M + E1" "E1 \<le> A / 2 ^ 24 + eta" "E2 \<le> S / 2 ^ 24 + eta" "T \<le> E2 + E1"
    and "0 \<le> A" "0 \<le> M" "0 \<le> eta"
  shows "T \<le> (A + M) / 2 ^ 23 + 4 * eta"
proof -
  have "S / 2 ^ 24 \<le> (M + E1) / 2 ^ 24"
    using assms(1) by (intro divide_right_mono) simp_all
  moreover have "E1 / 2 ^ 24 \<le> (A / 2 ^ 24 + eta) / 2 ^ 24"
    using assms(2) by (intro divide_right_mono) simp_all
  ultimately show ?thesis using assms by (simp add: add_divide_distrib)
qed

text \<open>At \<open>br = 1\<close> the interpolation is maxRadius up to two roundings.\<close>

lemma interpolate_one_close:
  "\<bar>interpolate mn mx 1 - mx\<bar> \<le> (\<bar>mx - mn\<bar> + \<bar>mx\<bar>) / 2 ^ 23 + 1 / 2 ^ 148"
proof -
  define dd where "dd = fl32 (mx - mn)"
  define s where "s = mn + dd"
  have i: "interpolate mn mx 1 = fl32 s"
    by (simp add: interpolate_def s_def dd_def fl32_idem)
  have e1: "\<bar>dd - (mx - mn)\<bar> \<le> \<bar>mx - mn\<bar> / 2 ^ 24 + 1 / 2 ^ 150"
    unfolding dd_def by (rule fl32_error)
  have e2: "\<bar>fl32 s - s\<bar> \<le> \<bar>s\<bar> / 2 ^ 24 + 1 / 2 ^ 150"
    by (rule fl32_error)
  have s: "\<bar>s\<bar> \<le> \<bar>mx\<bar> + \<bar>dd - (mx - mn)\<bar>"
    unfolding s_def by linarith
  have t: "\<bar>fl32 s - mx\<bar> \<le> \<bar>fl32 s - s\<bar> + \<bar>dd - (mx - mn)\<bar>"
    unfolding s_def by linarith
  have "\<bar>fl32 s - mx\<bar> \<le> (\<bar>mx - mn\<bar> + \<bar>mx\<bar>) / 2 ^ 23 + 4 * (1 / 2 ^ 150)"
    by (rule two_roundings [OF s e1 e2 t]) simp_all
  then show ?thesis by (simp add: i)
qed

lemma fl32_005: "fl32 (1 / 20) = 13421773 / 268435456"
  by (subst fl32_eval [of "- 5"]) (simp_all add: p2_neg_numeral rne_def)

lemma fl32_02: "fl32 (1 / 5) = 13421773 / 67108864"
  by (subst fl32_eval [of "- 3"]) (simp_all add: p2_neg_numeral rne_def)

lemma half_le:
  assumes "0 \<le> L" "fl32 L = L"
  shows "fl32 (L / 2) \<le> L" "0 \<le> fl32 (L / 2)"
proof -
  have "fl32 (L / 2) \<le> fl32 L" using assms(1) by (intro fl32_mono) simp
  then show "fl32 (L / 2) \<le> L" by (simp only: assms(2))
  show "0 \<le> fl32 (L / 2)" using assms(1) by (intro fl32_nonneg) simp
qed

lemma base_radius_of_le: "base_radius_of L dr brr u0 \<le> fl32 (L / 2)"
  by (simp add: base_radius_of_def Let_def)

lemma min_radius_of_nonneg:
  assumes "0 \<le> L"
  shows "0 \<le> min_radius_of L B"
proof -
  have "0 \<le> fl32 (fl32 (1 / 20) * L)"
    using assms by (intro fl32_nonneg mult_nonneg_nonneg) (simp_all add: fl32_005)
  then show ?thesis by (simp add: min_radius_of_def)
qed

lemma min_radius_of_le:
  assumes "0 \<le> L" "fl32 L = L" "B \<le> fl32 (L / 2)"
  shows "min_radius_of L B \<le> fl32 (L / 2)"
proof -
  have "fl32 (1 / 20) * L \<le> L / 2" using assms(1) by (simp add: fl32_005)
  then have a: "fl32 (fl32 (1 / 20) * L) \<le> fl32 (L / 2)" by (rule fl32_mono)
  have "B * fl32 (1 / 5) \<le> fl32 (L / 2)"
  proof (cases "0 \<le> B")
    case True
    then have "B * fl32 (1 / 5) \<le> B" by (simp add: fl32_02)
    with assms(3) show ?thesis by linarith
  next
    case False
    then have "B * fl32 (1 / 5) \<le> 0" by (simp add: fl32_02 mult_le_0_iff)
    with half_le(2) [OF assms(1,2)] show ?thesis by linarith
  qed
  then have "fl32 (B * fl32 (1 / 5)) \<le> fl32 (fl32 (L / 2))" by (rule fl32_mono)
  then have b: "fl32 (B * fl32 (1 / 5)) \<le> fl32 (L / 2)" by (simp only: fl32_idem)
  from a b show ?thesis by (simp add: min_radius_of_def)
qed

lemma min_radius_of_lower:
  assumes "0 \<le> L" "B \<le> L"
  shows "max (0.05 * L) (B * 0.2) - (L / 2 ^ 26 + 1 / 2 ^ 150) \<le> min_radius_of L B"
proof -
  define cL where "cL = fl32 (1 / 20) * L"
  have cL: "0 \<le> cL" "L / 20 \<le> cL" "cL \<le> L / 16"
    using assms(1) by (simp_all add: cL_def fl32_005)
  have "0.05 * L - (L / 2 ^ 26 + 1 / 2 ^ 150) \<le> cL - (cL / 2 ^ 24 + 1 / 2 ^ 150)"
    using cL assms(1) by simp
  also have "\<dots> \<le> fl32 cL" by (rule fl32_below [OF cL(1)])
  finally have a: "0.05 * L - (L / 2 ^ 26 + 1 / 2 ^ 150) \<le> min_radius_of L B"
    by (simp add: min_radius_of_def cL_def)
  have b: "B * 0.2 - (L / 2 ^ 26 + 1 / 2 ^ 150) \<le> min_radius_of L B"
  proof (cases "0 \<le> B")
    case True
    define cB where "cB = B * fl32 (1 / 5)"
    have cB: "0 \<le> cB" "B / 5 \<le> cB" "cB \<le> B / 4"
      using True by (simp_all add: cB_def fl32_02)
    have "B * 0.2 - (L / 2 ^ 26 + 1 / 2 ^ 150) \<le> cB - (cB / 2 ^ 24 + 1 / 2 ^ 150)"
      using cB assms(2) by simp
    also have "\<dots> \<le> fl32 cB" by (rule fl32_below [OF cB(1)])
    finally show ?thesis by (simp add: min_radius_of_def cB_def)
  next
    case False
    with assms(1) have "B * 0.2 \<le> 0.05 * L" by simp
    with a show ?thesis by linarith
  qed
  from a b show ?thesis by (simp add: max_def)
qed

subsection \<open>The binary32 numbers of the examples\<close>

text \<open>
  Each rounding that the examples below go through, worked out from the binade of its
  argument. Most arguments are binary32 numbers already; the decimal literals, and a few
  sums and products, are not.
\<close>

lemmas p2_evals = p2_numeral p2_neg_numeral p2_0 p2_1 p2_minus_1

lemma fl32_value_1: "fl32 (1 / 10) = 13421773 / 134217728"
  by (subst fl32_eval [of "- 4"]) (simp_all add: p2_evals rne_def)

lemma fl32_value_2: "fl32 (8853343 / 67108864) = 8853343 / 67108864"
  by (subst fl32_eval [of "- 3"]) (simp_all add: p2_evals rne_def)

lemma fl32_value_3: "fl32 (148534453401867 / 1125899906842624) = 8853343 / 67108864"
  by (subst fl32_eval [of "- 3"]) (simp_all add: p2_evals rne_def)

lemma fl32_value_4: "fl32 (5033165 / 33554432) = 5033165 / 33554432"
  by (subst fl32_eval [of "- 3"]) (simp_all add: p2_evals rne_def)

lemma fl32_value_5: "fl32 (178241346766595 / 1125899906842624) = 2656003 / 16777216"
  by (subst fl32_eval [of "- 3"]) (simp_all add: p2_evals rne_def)

lemma fl32_value_6: "fl32 (1 / 4) = 1 / 4"
  by (subst fl32_eval [of "- 2"]) (simp_all add: p2_evals rne_def)

lemma fl32_value_7: "fl32 (148534453401867 / 562949953421312) = 8853343 / 33554432"
  by (subst fl32_eval [of "- 2"]) (simp_all add: p2_evals rne_def)

lemma fl32_value_8: "fl32 (3 / 10) = 5033165 / 16777216"
  by (subst fl32_eval [of "- 2"]) (simp_all add: p2_evals rne_def)

lemma fl32_value_9: "fl32 (5033165 / 16777216) = 5033165 / 16777216"
  by (subst fl32_eval [of "- 2"]) (simp_all add: p2_evals rne_def)

lemma fl32_value_10: "fl32 (15099495 / 33554432) = 15099495 / 33554432"
  by (subst fl32_eval [of "- 2"]) (simp_all add: p2_evals rne_def)

lemma fl32_value_11: "fl32 (67108865 / 134217728) = 1 / 2"
  by (subst fl32_eval [of "- 1"]) (simp_all add: p2_evals rne_def)

lemma fl32_value_12: "fl32 (40265319 / 67108864) = 5033165 / 8388608"
  by (subst fl32_eval [of "- 1"]) (simp_all add: p2_evals rne_def)

lemma fl32_value_13: "fl32 (5033165 / 8388608) = 5033165 / 8388608"
  by (subst fl32_eval [of "- 1"]) (simp_all add: p2_evals rne_def)

lemma fl32_value_14: "fl32 (13280015 / 16777216) = 13280015 / 16777216"
  by (subst fl32_eval [of "- 1"]) (simp_all add: p2_evals rne_def)

lemma fl32_value_15: "fl32 (55700421409035 / 70368744177664) = 13280015 / 16777216"
  by (subst fl32_eval [of "- 1"]) (simp_all add: p2_evals rne_def)

lemma fl32_value_16: "fl32 (31876711 / 33554432) = 3984589 / 4194304"
  by (subst fl32_eval [of "- 1"]) (simp_all add: p2_evals rne_def)

lemma fl32_value_17: "fl32 (1099511627777 / 1099511627776) = 1"
  by (subst fl32_eval [of "0"]) (simp_all add: p2_evals rne_def)

lemma fl32_value_18: "fl32 (67108865 / 67108864) = 1"
  by (subst fl32_eval [of "0"]) (simp_all add: p2_evals rne_def)

lemma fl32_value_19: "fl32 (8703181 / 8388608) = 8703181 / 8388608"
  by (subst fl32_eval [of "0"]) (simp_all add: p2_evals rne_def)

lemma fl32_value_20: "fl32 (19477355 / 16777216) = 4869339 / 4194304"
  by (subst fl32_eval [of "0"]) (simp_all add: p2_evals rne_def)

lemma fl32_value_21: "fl32 (4869339 / 4194304) = 4869339 / 4194304"
  by (subst fl32_eval [of "0"]) (simp_all add: p2_evals rne_def)

lemma fl32_value_22: "fl32 (11066679 / 8388608) = 11066679 / 8388608"
  by (subst fl32_eval [of "0"]) (simp_all add: p2_evals rne_def)

lemma fl32_value_23: "fl32 (22133359 / 16777216) = 1383335 / 1048576"
  by (subst fl32_eval [of "0"]) (simp_all add: p2_evals rne_def)

lemma fl32_value_24: "fl32 (1383335 / 1048576) = 1383335 / 1048576"
  by (subst fl32_eval [of "0"]) (simp_all add: p2_evals rne_def)

lemma fl32_value_25: "fl32 (6868173 / 4194304) = 6868173 / 4194304"
  by (subst fl32_eval [of "0"]) (simp_all add: p2_evals rne_def)

lemma fl32_value_26: "fl32 (2) = 2"
  by (subst fl32_eval [of "1"]) (simp_all add: p2_evals rne_def)

lemma fl32_value_27: "fl32 (8965325 / 4194304) = 8965325 / 4194304"
  by (subst fl32_eval [of "1"]) (simp_all add: p2_evals rne_def)

lemma fl32_value_28: "fl32 (11066679 / 4194304) = 11066679 / 4194304"
  by (subst fl32_eval [of "1"]) (simp_all add: p2_evals rne_def)

lemma fl32_value_29: "fl32 (3) = 3"
  by (subst fl32_eval [of "1"]) (simp_all add: p2_evals rne_def)

lemma fl32_value_30: "fl32 (25165825 / 8388608) = 3"
  by (subst fl32_eval [of "1"]) (simp_all add: p2_evals rne_def)

lemma fl32_value_31: "fl32 (31562139 / 8388608) = 7890535 / 2097152"
  by (subst fl32_eval [of "1"]) (simp_all add: p2_evals rne_def)

lemma fl32_value_32: "fl32 (4) = 4"
  by (subst fl32_eval [of "2"]) (simp_all add: p2_evals rne_def)

lemma fl32_value_33: "fl32 (34812723 / 8388608) = 8703181 / 2097152"
  by (subst fl32_eval [of "2"]) (simp_all add: p2_evals rne_def)

lemma fl32_value_34: "fl32 (8703181 / 2097152) = 8703181 / 2097152"
  by (subst fl32_eval [of "2"]) (simp_all add: p2_evals rne_def)

lemma fl32_value_35: "fl32 (4574413 / 1048576) = 4574413 / 1048576"
  by (subst fl32_eval [of "2"]) (simp_all add: p2_evals rne_def)

lemma fl32_value_36: "fl32 (19 / 4) = 19 / 4"
  by (subst fl32_eval [of "2"]) (simp_all add: p2_evals rne_def)

lemma fl32_value_37: "fl32 (39845889 / 8388608) = 19 / 4"
  by (subst fl32_eval [of "2"]) (simp_all add: p2_evals rne_def)

lemma fl32_value_38: "fl32 (5) = 5"
  by (subst fl32_eval [of "2"]) (simp_all add: p2_evals rne_def)

lemma fl32_value_39: "fl32 (65 / 8) = 65 / 8"
  by (subst fl32_eval [of "3"]) (simp_all add: p2_evals rne_def)

lemma fl32_value_40: "fl32 (68157443 / 8388608) = 65 / 8"
  by (subst fl32_eval [of "3"]) (simp_all add: p2_evals rne_def)

lemma fl32_value_41: "fl32 (73190605 / 8388608) = 4574413 / 524288"
  by (subst fl32_eval [of "3"]) (simp_all add: p2_evals rne_def)

lemma fl32_value_42: "fl32 (4574413 / 524288) = 4574413 / 524288"
  by (subst fl32_eval [of "3"]) (simp_all add: p2_evals rne_def)

lemma fl32_value_43: "fl32 (19 / 2) = 19 / 2"
  by (subst fl32_eval [of "3"]) (simp_all add: p2_evals rne_def)

lemma fl32_value_44: "fl32 (10) = 10"
  by (subst fl32_eval [of "3"]) (simp_all add: p2_evals rne_def)

lemma fl32_value_45: "fl32 (15) = 15"
  by (subst fl32_eval [of "3"]) (simp_all add: p2_evals rne_def)

lemma fl32_value_46: "fl32 (65 / 4) = 65 / 4"
  by (subst fl32_eval [of "4"]) (simp_all add: p2_evals rne_def)

lemma fl32_value_47: "fl32 (47159705 / 2097152) = 5894963 / 262144"
  by (subst fl32_eval [of "4"]) (simp_all add: p2_evals rne_def)

lemma fl32_value_48: "fl32 (105 / 4) = 105 / 4"
  by (subst fl32_eval [of "4"]) (simp_all add: p2_evals rne_def)

lemma fl32_value_49: "fl32 (30) = 30"
  by (subst fl32_eval [of "4"]) (simp_all add: p2_evals rne_def)

lemmas fl32_values =
  fl32_005 fl32_02 fl32_1 fl32_half
  fl32_value_1 fl32_value_2 fl32_value_3 fl32_value_4 fl32_value_5 fl32_value_6
  fl32_value_7 fl32_value_8 fl32_value_9 fl32_value_10 fl32_value_11 fl32_value_12
  fl32_value_13 fl32_value_14 fl32_value_15 fl32_value_16 fl32_value_17 fl32_value_18
  fl32_value_19 fl32_value_20 fl32_value_21 fl32_value_22 fl32_value_23 fl32_value_24
  fl32_value_25 fl32_value_26 fl32_value_27 fl32_value_28 fl32_value_29 fl32_value_30
  fl32_value_31 fl32_value_32 fl32_value_33 fl32_value_34 fl32_value_35 fl32_value_36
  fl32_value_37 fl32_value_38 fl32_value_39 fl32_value_40 fl32_value_41 fl32_value_42
  fl32_value_43 fl32_value_44 fl32_value_45 fl32_value_46 fl32_value_47 fl32_value_48
  fl32_value_49

lemmas generate_defs =
  generateCloudSpheres_def size_t_of_int_def sphere_max_size_def Let_def
  baseSphere_def base_radius_of_def cloudSphere_def clampX_def min_radius_of_def
  max_radius_of_def betaRand_def interpolate_def fl32_minus

lemma size_t_of_int_neg:
  assumes "n < 0" "- (2 ^ 31) \<le> n"
  shows "size_t_of_int n > sphere_max_size"
proof -
  have "(n + 2 ^ 64) mod 2 ^ 64 = n + 2 ^ 64"
    using assms by (intro mod_pos_pos_trivial) simp_all
  then have "n mod 2 ^ 64 = n + 2 ^ 64" by simp
  then show ?thesis using assms by (simp add: size_t_of_int_def sphere_max_size_def)
qed

lemma sint_cint_ge: "- (2 ^ 31) \<le> sint (N :: cint)"
  using sint_ge [of N] by simp

subsection \<open>The degenerate case: maxRadius below minRadius\<close>

text \<open>
  C2, as the claim states it, fails. With the default parameters (\<open>L = 10\<close>, ratios
  \<^verbatim>\<open>0.1f\<close>, \<^verbatim>\<open>0.2f\<close>, \<^verbatim>\<open>0.3f\<close>), a sphere whose Gaussian draw is clamped to the
  wall \<open>x = 0\<close> has maxRadius 0 below minRadius \<^verbatim>\<open>0.6f\<close>, and its radius is half of
  minRadius, not minRadius; with \<open>delta_ratio = 3\<close> and \<open>y_base = 26.25\<close> above the
  box of size 10, the radius is negative.
\<close>

theorem generateCloudSpheres_no_fallback_counterexample:
  "generateCloudSpheres 10 2 (fl32 (1 / 10)) (fl32 (1 / 5)) 2 5 (fl32 (3 / 10)) 0
       (\<lambda>i. \<lparr>gaussX = - 1, gaussZ = 5, randf = 0, gaA = 1, gaB = 1\<rparr>)
     = Inr [\<lparr>center = (5, 3, 5), radius = 3\<rparr>,
            \<lparr>center = (0, 5033165 / 16777216, 5), radius = 5033165 / 16777216\<rparr>]
   \<and> max_radius_of 10 (clampX 10 (- 1)) (clampX 10 5) (fl32 (0 * fl32 (10 * fl32 (1 / 10)))) = 0
   \<and> min_radius_of 10 (base_radius_of 10 (fl32 (1 / 10)) (fl32 (3 / 10)) 0) = 5033165 / 8388608
   \<and> generateCloudSpheres 10 2 3 (fl32 (1 / 5)) 2 5 (fl32 (3 / 10)) 0
       (\<lambda>i. \<lparr>gaussX = 5, gaussZ = 5, randf = 7 / 8, gaA = 1, gaB = 1\<rparr>)
     = Inr [\<lparr>center = (5, 3, 5), radius = 3\<rparr>,
            \<lparr>center = (5, 5894963 / 262144, 5), radius = - (7890535 / 2097152)\<rparr>]"
  by (simp add: generate_defs fl32_values)

text \<open>
  C2, amended. In generateCloudSpheres, whenever the computed maxRadius \<open>mx\<close> of a
  non-base sphere is below its minRadius \<open>mn\<close>, the radius is not reset to minRadius:
  with \<^verbatim>\<open>br\<close> in \<open>[0, 1]\<close> (both Gamma draws positive binary32 numbers), it is at
  most minRadius and at least the value of the interpolation \<open>mn + br * (mx - mn)\<close> at
  \<open>br = 1\<close>, which is maxRadius up to two roundings. The radius is not negative when
  the box size is not negative and the sphere's base height is inside the box
  (\<open>y_base \<le> L\<close>).
\<close>

theorem generateCloudSpheres_degenerate_radius:
  assumes "generateCloudSpheres L N dr sr al be brr u0 rnd = Inr spheres"
    and "1 \<le> k" and "k < length spheres"
    and "d = rnd (k - 1)" and "0 < gaA d" and "0 < gaB d" and "fl32 (gaA d) = gaA d"
    and "y_base = fl32 (randf d * fl32 (L * dr))"
    and "mn = min_radius_of L (base_radius_of L dr brr u0)"
    and "mx = max_radius_of L (clampX L (gaussX d)) (clampX L (gaussZ d)) y_base"
    and "mx < mn"
  shows "0 \<le> betaRand al be d \<and> betaRand al be d \<le> 1
         \<and> interpolate mn mx 1 \<le> radius (spheres ! k) \<and> radius (spheres ! k) \<le> mn
         \<and> mx - ((mn - mx + \<bar>mx\<bar>) / 2 ^ 23 + 1 / 2 ^ 148) \<le> radius (spheres ! k)
         \<and> (0 \<le> L \<and> y_base \<le> L \<longrightarrow> 0 \<le> radius (spheres ! k))"
proof -
  have r: "radius (spheres ! k) = interpolate mn mx (betaRand al be d)"
    using generateCloudSpheres_nth [OF assms(1-3)] assms(4,8,9,10)
    by (simp add: radius_cloudSphere)
  note t = betaRand_range [OF assms(5-7), of al be]
  have f: "fl32 mn = mn" unfolding assms(9) by (rule min_radius_of_float)
  have le: "mx \<le> mn" using assms(11) by simp
  note b = interpolate_degenerate [OF t f le]
  have c: "mx - ((mn - mx + \<bar>mx\<bar>) / 2 ^ 23 + 1 / 2 ^ 148) \<le> interpolate mn mx 1"
    using interpolate_one_close [of mn mx] le by simp
  have "0 \<le> radius (spheres ! k)" if "0 \<le> L" "y_base \<le> L"
  proof -
    from clampX_range [OF that(1)] that
    have "0 \<le> mx" unfolding assms(10) by (intro max_radius_of_nonneg) simp_all
    from interpolate_nonneg [OF t f this le] show ?thesis by (simp only: r)
  qed
  with r t b c show ?thesis by simp
qed

text \<open>
  The theorem at the sphere clamped to the wall \<open>x = 10\<close>, with the default parameters
  and the Gamma draws 1 and 3: \<^verbatim>\<open>br\<close> is 0.25 and the radius three quarters of
  minRadius.
\<close>

theorem generateCloudSpheres_degenerate_radius_witness:
  "generateCloudSpheres 10 2 (fl32 (1 / 10)) (fl32 (1 / 5)) 2 5 (fl32 (3 / 10)) 0
       (\<lambda>i. \<lparr>gaussX = 12, gaussZ = 5, randf = 1 / 2, gaA = 1, gaB = 3\<rparr>)
     = Inr [\<lparr>center = (5, 3, 5), radius = 3\<rparr>,
            \<lparr>center = (10, 3984589 / 4194304, 5), radius = 15099495 / 33554432\<rparr>]
   \<and> (1 :: nat) \<le> 1
   \<and> 1 < length [\<lparr>center = (5, 3, 5), radius = 3\<rparr>,
                  \<lparr>center = (10, 3984589 / 4194304, 5), radius = 15099495 / 33554432\<rparr>]
   \<and> (0 :: real) < 1 \<and> (0 :: real) < 3 \<and> fl32 1 = 1
   \<and> min_radius_of 10 (base_radius_of 10 (fl32 (1 / 10)) (fl32 (3 / 10)) 0)
       = 5033165 / 8388608
   \<and> max_radius_of 10 (clampX 10 12) (clampX 10 5) (fl32 (1 / 2 * fl32 (10 * fl32 (1 / 10))))
       = 0
   \<and> (0 :: real) < 5033165 / 8388608
   \<and> betaRand 2 5 \<lparr>gaussX = 12, gaussZ = 5, randf = 1 / 2, gaA = 1, gaB = 3\<rparr> = 1 / 4
   \<and> interpolate (5033165 / 8388608) 0 1 \<le> 15099495 / 33554432
   \<and> (15099495 / 33554432 :: real) \<le> 5033165 / 8388608
   \<and> 0 - ((5033165 / 8388608 - 0 + \<bar>0\<bar>) / 2 ^ 23 + 1 / 2 ^ 148)
       \<le> (15099495 / 33554432 :: real)
   \<and> (0 :: real) \<le> 10 \<and> fl32 (1 / 2 * fl32 (10 * fl32 (1 / 10))) \<le> 10
   \<and> (0 :: real) \<le> 15099495 / 33554432"
proof -
  let ?d = "\<lparr>gaussX = 12, gaussZ = 5, randf = 1 / 2, gaA = 1, gaB = 3\<rparr>"
  let ?rnd = "\<lambda>i :: nat. ?d"
  let ?S = "[\<lparr>center = (5, 3, 5), radius = 3\<rparr>,
             \<lparr>center = (10, 3984589 / 4194304, 5), radius = 15099495 / 33554432\<rparr>]"
  have g: "generateCloudSpheres 10 2 (fl32 (1 / 10)) (fl32 (1 / 5)) 2 5 (fl32 (3 / 10)) 0 ?rnd
             = Inr ?S"
    by (simp add: generate_defs fl32_values)
  have k: "(1 :: nat) \<le> 1" "1 < length ?S" by simp_all
  have a: "0 < gaA (?rnd (1 - 1))" "0 < gaB (?rnd (1 - 1))"
    "fl32 (gaA (?rnd (1 - 1))) = gaA (?rnd (1 - 1))"
    by (simp_all add: fl32_1)
  have mn: "min_radius_of 10 (base_radius_of 10 (fl32 (1 / 10)) (fl32 (3 / 10)) 0)
              = 5033165 / 8388608"
    by (simp add: generate_defs fl32_values)
  have mx: "max_radius_of 10 (clampX 10 12) (clampX 10 5)
              (fl32 (1 / 2 * fl32 (10 * fl32 (1 / 10)))) = 0"
    by (simp add: generate_defs fl32_values)
  have deg: "max_radius_of 10 (clampX 10 (gaussX (?rnd (1 - 1)))) (clampX 10 (gaussZ (?rnd (1 - 1))))
               (fl32 (randf (?rnd (1 - 1)) * fl32 (10 * fl32 (1 / 10))))
             < min_radius_of 10 (base_radius_of 10 (fl32 (1 / 10)) (fl32 (3 / 10)) 0)"
    using mn mx by simp
  have br: "betaRand 2 5 ?d = 1 / 4"
    by (simp add: generate_defs fl32_values)
  have yb: "fl32 (1 / 2 * fl32 (10 * fl32 (1 / 10))) \<le> 10"
    by (simp add: fl32_values)
  from generateCloudSpheres_degenerate_radius [OF g k refl a refl refl refl deg] g mn mx br yb
  show ?thesis by (simp add: fl32_1)
qed

subsection \<open>The bounds on the radius\<close>

lemma radius_upper_chain:
  fixes r mx H L :: real
  assumes "r \<le> mx + (mx + mx) / 2 ^ 23 + 1 / 2 ^ 148"
    and "mx \<le> H" and "H \<le> L / 2 + (L / 2 / 2 ^ 24 + 1 / 2 ^ 150)" and "0 \<le> L"
  shows "r \<le> L / 2 + (L / 2 ^ 22 + 1 / 2 ^ 147)"
proof -
  have m: "mx \<le> L / 2 + (L / 2 / 2 ^ 24 + 1 / 2 ^ 150)" using assms(2,3) by linarith
  then have "(mx + mx) / 2 ^ 23 \<le> 2 * (L / 2 + (L / 2 / 2 ^ 24 + 1 / 2 ^ 150)) / 2 ^ 23"
    by (intro divide_right_mono) simp_all
  with assms(1,4) m show ?thesis by (simp add: add_divide_distrib)
qed

text \<open>
  C3, as the claim states it, fails in all three of its bounds. With the default
  parameters and \<open>L = 10\<close>: a sphere clamped to the wall \<open>x = 10\<close> has a radius of about
  0.45, below \<open>max (0.05 * L) (baseRadius * 0.2) = 0.6\<close> by more than any small epsilon;
  and with the positive Gamma draws 1 and \<open>2^-40\<close>, whose sum rounds to 1, \<^verbatim>\<open>br\<close> is 1 and
  a sphere at the wall \<open>x = 0\<close> has the radius 0, which is not positive. With
  \<open>L = 11066679 / 2^22\<close> and the same Gamma draws, a sphere in the middle of the box has
  the radius \<open>1383335 / 2^20\<close>, one binary32 step above \<open>0.5 * L\<close>.
\<close>

theorem generateCloudSpheres_radius_bounds_counterexample:
  "generateCloudSpheres 10 2 (fl32 (1 / 10)) (fl32 (1 / 5)) 2 5 (fl32 (3 / 10)) 0
       (\<lambda>i. \<lparr>gaussX = 11, gaussZ = 5, randf = 0, gaA = 1, gaB = 3\<rparr>)
     = Inr [\<lparr>center = (5, 3, 5), radius = 3\<rparr>,
            \<lparr>center = (10, 15099495 / 33554432, 5), radius = 15099495 / 33554432\<rparr>]
   \<and> 15099495 / 33554432 < max (0.05 * 10) (3 * 0.2) - (1 / 10 :: real)
   \<and> generateCloudSpheres 10 2 (fl32 (1 / 10)) (fl32 (1 / 5)) 2 5 (fl32 (3 / 10)) 0
       (\<lambda>i. \<lparr>gaussX = 0, gaussZ = 5, randf = 0, gaA = 1, gaB = 1 / 1099511627776\<rparr>)
     = Inr [\<lparr>center = (5, 3, 5), radius = 3\<rparr>, \<lparr>center = (0, 0, 5), radius = 0\<rparr>]
   \<and> generateCloudSpheres (11066679 / 4194304) 2 (fl32 (1 / 10)) (fl32 (1 / 5)) 2 5
       (fl32 (3 / 10)) 0
       (\<lambda>i. \<lparr>gaussX = 11066679 / 8388608, gaussZ = 11066679 / 8388608, randf = 0,
              gaA = 1, gaB = 1 / 1099511627776\<rparr>)
     = Inr [\<lparr>center = (11066679 / 8388608, 13280015 / 16777216, 11066679 / 8388608),
             radius = 13280015 / 16777216\<rparr>,
            \<lparr>center = (11066679 / 8388608, 1383335 / 1048576, 11066679 / 8388608),
             radius = 1383335 / 1048576\<rparr>]
   \<and> fl32 (11066679 / 4194304) = 11066679 / 4194304
   \<and> 0.5 * (11066679 / 4194304) < (1383335 / 1048576 :: real)"
  by (simp add: generate_defs fl32_values)

text \<open>
  C3, amended. For a binary32 box size \<open>L > 0\<close>, \<open>0 \<le> delta_ratio \<le> 1\<close>, a uniform
  draw in \<open>[0, 1]\<close> and positive binary32 Gamma draws, every non-base sphere that
  generateCloudSpheres produces has \<open>0 \<le> radius \<le> 0.5 * L + eps\<close>, and
  \<open>radius \<ge> max (0.05 * L) (baseRadius * 0.2) - eps\<close> whenever the computed maxRadius
  is not below the computed minRadius; \<open>eps = L / 2^22 + 1 / 2^147\<close> covers the rounding,
  and baseRadius is the radius of the base sphere.
\<close>

theorem generateCloudSpheres_radius_bounds:
  assumes "generateCloudSpheres L N dr sr al be brr u0 rnd = Inr spheres"
    and "1 \<le> k" and "k < length spheres"
    and "0 < L" and "fl32 L = L" and "0 \<le> dr" and "dr \<le> 1"
    and "d = rnd (k - 1)" and "0 \<le> randf d" and "randf d \<le> 1"
    and "0 < gaA d" and "0 < gaB d" and "fl32 (gaA d) = gaA d"
    and "B = base_radius_of L dr brr u0"
    and "mn = min_radius_of L B"
    and "mx = max_radius_of L (clampX L (gaussX d)) (clampX L (gaussZ d))
                (fl32 (randf d * fl32 (L * dr)))"
  shows "radius (spheres ! 0) = B
         \<and> 0 \<le> radius (spheres ! k)
         \<and> radius (spheres ! k) \<le> 0.5 * L + (L / 2 ^ 22 + 1 / 2 ^ 147)
         \<and> (mn \<le> mx \<longrightarrow>
              max (0.05 * L) (B * 0.2) - (L / 2 ^ 22 + 1 / 2 ^ 147) \<le> radius (spheres ! k))"
proof -
  have L0: "0 \<le> L" using assms(4) by simp
  have b0: "radius (spheres ! 0) = B"
    using assms(1) unfolding assms(14)
    by (auto simp: generateCloudSpheres_def baseSphere_def Let_def split: if_splits)
  have r: "radius (spheres ! k) = interpolate mn mx (betaRand al be d)"
    using generateCloudSpheres_nth [OF assms(1-3)] assms(8,14,15,16)
    by (simp add: radius_cloudSphere)
  note t = betaRand_range [OF assms(11-13), of al be]
  have f: "fl32 mn = mn" unfolding assms(15) by (rule min_radius_of_float)
  have BH: "B \<le> fl32 (L / 2)" unfolding assms(14) by (rule base_radius_of_le)
  with half_le(1) [OF L0 assms(5)] have BL: "B \<le> L" by linarith
  have mn0: "0 \<le> mn" unfolding assms(15) by (rule min_radius_of_nonneg [OF L0])
  have mnH: "mn \<le> fl32 (L / 2)"
    unfolding assms(15) by (rule min_radius_of_le [OF L0 assms(5) BH])
  have yb: "fl32 (randf d * fl32 (L * dr)) \<le> L"
    by (rule y_base_le [OF L0 assms(5,6,7,9,10)])
  have mx0: "0 \<le> mx"
    unfolding assms(16) using clampX_range [OF L0] L0 yb
    by (intro max_radius_of_nonneg) simp_all
  have mxH: "mx \<le> fl32 (L / 2)"
    unfolding assms(16) using max_radius_of_le [of L] by simp
  have Hup: "fl32 (L / 2) \<le> L / 2 + (L / 2 / 2 ^ 24 + 1 / 2 ^ 150)"
    using L0 by (intro fl32_above) simp
  have nonneg: "0 \<le> radius (spheres ! k)"
  proof (cases "mx \<le> mn")
    case True
    from interpolate_nonneg [OF t f mx0 True] show ?thesis by (simp only: r)
  next
    case False
    then have "mn \<le> mx" by simp
    from interpolate_regular(1) [OF t f this] mn0 show ?thesis by (simp only: r)
  qed
  have upper: "radius (spheres ! k) \<le> L / 2 + (L / 2 ^ 22 + 1 / 2 ^ 147)"
  proof (cases "mx \<le> mn")
    case True
    from interpolate_degenerate(2) [OF t f True] have "radius (spheres ! k) \<le> mn"
      by (simp only: r)
    with mnH Hup L0 show ?thesis by simp
  next
    case False
    then have le: "mn \<le> mx" by simp
    have "interpolate mn mx 1 \<le> mx + (\<bar>mx - mn\<bar> + \<bar>mx\<bar>) / 2 ^ 23 + 1 / 2 ^ 148"
      using interpolate_one_close [of mn mx] by linarith
    moreover have "\<bar>mx - mn\<bar> + \<bar>mx\<bar> \<le> mx + mx" using le mn0 mx0 by simp
    then have "(\<bar>mx - mn\<bar> + \<bar>mx\<bar>) / 2 ^ 23 \<le> (mx + mx) / 2 ^ 23"
      by (intro divide_right_mono) simp_all
    ultimately have "radius (spheres ! k) \<le> mx + (mx + mx) / 2 ^ 23 + 1 / 2 ^ 148"
      using interpolate_regular(2) [OF t f le] unfolding r by linarith
    from radius_upper_chain [OF this mxH Hup L0] show ?thesis .
  qed
  have lower: "max (0.05 * L) (B * 0.2) - (L / 2 ^ 22 + 1 / 2 ^ 147) \<le> radius (spheres ! k)"
    if le: "mn \<le> mx"
  proof -
    have "max (0.05 * L) (B * 0.2) - (L / 2 ^ 26 + 1 / 2 ^ 150) \<le> mn"
      unfolding assms(15) by (rule min_radius_of_lower [OF L0 BL])
    moreover have "mn \<le> radius (spheres ! k)"
      using interpolate_regular(1) [OF t f le] by (simp only: r)
    moreover have "L / 2 ^ 26 + 1 / 2 ^ 150 \<le> L / 2 ^ 22 + 1 / 2 ^ 147"
      using L0 by simp
    ultimately show ?thesis by linarith
  qed
  from b0 nonneg upper lower show ?thesis by simp
qed

text \<open>
  The theorem at a sphere in the middle of the box (default parameters, \<open>L = 10\<close>, Gamma
  draws 1 and 3), where maxRadius 4.75 is above minRadius and the radius is about 1.6375.
\<close>

theorem generateCloudSpheres_radius_bounds_witness:
  "generateCloudSpheres 10 2 (fl32 (1 / 10)) (fl32 (1 / 5)) 2 5 (fl32 (3 / 10)) 0
       (\<lambda>i. \<lparr>gaussX = 5, gaussZ = 5, randf = 1 / 2, gaA = 1, gaB = 3\<rparr>)
     = Inr [\<lparr>center = (5, 3, 5), radius = 3\<rparr>,
            \<lparr>center = (5, 8965325 / 4194304, 5), radius = 6868173 / 4194304\<rparr>]
   \<and> (1 :: nat) \<le> 1
   \<and> 1 < length [\<lparr>center = (5, 3, 5), radius = 3\<rparr>,
                  \<lparr>center = (5, 8965325 / 4194304, 5), radius = 6868173 / 4194304\<rparr>]
   \<and> (0 :: real) < 10 \<and> fl32 10 = 10 \<and> 0 \<le> fl32 (1 / 10) \<and> fl32 (1 / 10) \<le> 1
   \<and> (0 :: real) \<le> 1 / 2 \<and> (1 / 2 :: real) \<le> 1
   \<and> (0 :: real) < 1 \<and> (0 :: real) < 3 \<and> fl32 1 = 1
   \<and> base_radius_of 10 (fl32 (1 / 10)) (fl32 (3 / 10)) 0 = 3
   \<and> min_radius_of 10 3 = 5033165 / 8388608
   \<and> max_radius_of 10 (clampX 10 5) (clampX 10 5) (fl32 (1 / 2 * fl32 (10 * fl32 (1 / 10))))
       = 19 / 4
   \<and> (0 :: real) \<le> 6868173 / 4194304
   \<and> 6868173 / 4194304 \<le> 0.5 * 10 + (10 / 2 ^ 22 + 1 / 2 ^ 147 :: real)
   \<and> max (0.05 * 10) (3 * 0.2) - (10 / 2 ^ 22 + 1 / 2 ^ 147) \<le> (6868173 / 4194304 :: real)"
proof -
  let ?d = "\<lparr>gaussX = 5, gaussZ = 5, randf = 1 / 2, gaA = 1, gaB = 3\<rparr>"
  let ?rnd = "\<lambda>i :: nat. ?d"
  let ?S = "[\<lparr>center = (5, 3, 5), radius = 3\<rparr>,
             \<lparr>center = (5, 8965325 / 4194304, 5), radius = 6868173 / 4194304\<rparr>]"
  have g: "generateCloudSpheres 10 2 (fl32 (1 / 10)) (fl32 (1 / 5)) 2 5 (fl32 (3 / 10)) 0 ?rnd
             = Inr ?S"
    by (simp add: generate_defs fl32_values)
  have k: "(1 :: nat) \<le> 1" "1 < length ?S" by simp_all
  have par: "(0 :: real) < 10" "fl32 10 = 10" "0 \<le> fl32 (1 / 10)" "fl32 (1 / 10) \<le> 1"
    by (simp_all add: fl32_values)
  have u: "0 \<le> randf (?rnd (1 - 1))" "randf (?rnd (1 - 1)) \<le> 1" by simp_all
  have a: "0 < gaA (?rnd (1 - 1))" "0 < gaB (?rnd (1 - 1))"
    "fl32 (gaA (?rnd (1 - 1))) = gaA (?rnd (1 - 1))"
    by (simp_all add: fl32_1)
  have B: "base_radius_of 10 (fl32 (1 / 10)) (fl32 (3 / 10)) 0 = 3"
    by (simp add: generate_defs fl32_values)
  have mn: "min_radius_of 10 3 = 5033165 / 8388608"
    by (simp add: generate_defs fl32_values)
  have mx: "max_radius_of 10 (clampX 10 5) (clampX 10 5) (fl32 (1 / 2 * fl32 (10 * fl32 (1 / 10))))
              = 19 / 4"
    by (simp add: generate_defs fl32_values)
  from generateCloudSpheres_radius_bounds [OF g k par refl u a refl refl refl] g par B mn mx
  show ?thesis by (simp add: fl32_1)
qed

subsection \<open>The sphere count\<close>

text \<open>
  C5, as the claim states it, fails: with \<open>N = 0\<close> the result holds the base sphere.
\<close>

theorem generateCloudSpheres_zero_count_counterexample:
  "generateCloudSpheres 10 0 (fl32 (1 / 10)) (fl32 (1 / 5)) 2 5 (fl32 (3 / 10)) 0
       (\<lambda>i. \<lparr>gaussX = 5, gaussZ = 5, randf = 0, gaA = 1, gaB = 1\<rparr>)
     = Inr [\<lparr>center = (5, 3, 5), radius = 3\<rparr>]
   \<and> generateCloudSpheres 10 0 (fl32 (1 / 10)) (fl32 (1 / 5)) 2 5 (fl32 (3 / 10)) 0
       (\<lambda>i. \<lparr>gaussX = 5, gaussZ = 5, randf = 0, gaA = 1, gaB = 1\<rparr>)
     \<noteq> Inr []"
  by (simp add: generate_defs fl32_values)

text \<open>
  C5, amended. For \<open>N = 0\<close> generateCloudSpheres returns the set that holds exactly the
  base sphere, and for \<open>N < 0\<close> it returns no set: \<^verbatim>\<open>spheres.reserve(N)\<close> throws
  \<^verbatim>\<open>std::length_error\<close>. For no \<open>N \<le> 0\<close> is the result an empty set.
\<close>

theorem generateCloudSpheres_nonpositive_count:
  assumes "sint N \<le> 0"
  shows "generateCloudSpheres L N dr sr al be brr u0 rnd =
           (if sint N = 0 then Inr [baseSphere L dr brr u0] else Inl LengthError)"
proof (cases "sint N = 0")
  case True
  then show ?thesis
    by (simp add: generateCloudSpheres_def size_t_of_int_def sphere_max_size_def Let_def)
next
  case False
  with assms have "sint N < 0" by simp
  from size_t_of_int_neg [OF this sint_cint_ge] False show ?thesis
    by (simp add: generateCloudSpheres_def)
qed

text \<open>The theorem at \<open>N = 0\<close> and at \<open>N = -1\<close>.\<close>

theorem generateCloudSpheres_nonpositive_count_witness:
  "sint (0 :: cint) \<le> 0
   \<and> generateCloudSpheres 10 0 (1/10) (2/10) 2 5 (3/10) 0
       (\<lambda>i. \<lparr>gaussX = 5, gaussZ = 5, randf = 0, gaA = 1, gaB = 1\<rparr>)
     = Inr [baseSphere 10 (1/10) (3/10) 0]
   \<and> sint (- 1 :: cint) \<le> 0
   \<and> generateCloudSpheres 10 (- 1) (1/10) (2/10) 2 5 (3/10) 0
       (\<lambda>i. \<lparr>gaussX = 5, gaussZ = 5, randf = 0, gaA = 1, gaB = 1\<rparr>)
     = Inl LengthError"
proof -
  have z: "sint (0 :: cint) \<le> 0" and m: "sint (- 1 :: cint) \<le> 0" by simp_all
  from generateCloudSpheres_nonpositive_count [OF z, of 10 "1/10" "2/10" 2 5 "3/10" 0]
    generateCloudSpheres_nonpositive_count [OF m, of 10 "1/10" "2/10" 2 5 "3/10" 0]
  show ?thesis by simp
qed

section \<open>Properties of the noise generator\<close>

lemma shuffle_length: "length (fst (shuffle rnd k (perm, g))) = length perm"
  by (induction k arbitrary: perm g) (auto simp: Let_def split: prod.splits)

lemma shuffle_set:
  "k < length perm \<Longrightarrow> set (fst (shuffle rnd k (perm, g))) = set perm"
proof (induction k arbitrary: perm g)
  case 0
  show ?case by simp
next
  case (Suc k)
  obtain r g' where r: "rnd g = (r, g')" by (cases "rnd g") auto
  define j where "j = r mod (Suc k + 1)"
  have "j < Suc k + 1" by (simp add: j_def)
  with Suc.prems have j: "j < length perm" by simp
  define perm' where "perm' = perm[Suc k := perm ! j, j := perm ! Suc k]"
  have len: "k < length perm'" using Suc.prems by (simp add: perm'_def)
  have "set perm' = set perm"
    unfolding perm'_def using Suc.prems j by (rule set_swap)
  with Suc.IH [OF len, of g'] show ?case
    by (simp add: r j_def perm'_def Let_def)
qed

lemma shuffle_entries:
  assumes "shuffle rnd 255 (map int [0 ..< 256], g) = (perm, g')"
  shows "length perm = 256" and "\<forall>v \<in> set perm. 0 \<le> v \<and> v \<le> 255"
proof -
  have "length (fst (shuffle rnd 255 (map int [0 ..< 256], g))) = 256"
    by (simp add: shuffle_length)
  with assms show "length perm = 256" by simp
  have "set (fst (shuffle rnd 255 (map int [0 ..< 256], g))) = set (map int [0 ..< 256])"
    by (rule shuffle_set) simp
  with assms have "set perm = int ` {0 ..< 256}" by simp
  then show "\<forall>v \<in> set perm. 0 \<le> v \<and> v \<le> 255" by auto
qed

lemma fold_duplicate:
  assumes "n \<le> 256" "length tbl = 512"
  shows "length (fold (duplicate perm) [0 ..< n] tbl) = 512
         \<and> (\<forall>k < 512. fold (duplicate perm) [0 ..< n] tbl ! k =
               (if k < n then perm ! k
                else if 256 \<le> k \<and> k < 256 + n then perm ! (k - 256) else tbl ! k))"
  using assms(1)
proof (induction n)
  case 0
  show ?case using assms(2) by simp
next
  case (Suc n)
  define T where "T = fold (duplicate perm) [0 ..< n] tbl"
  from Suc have IH: "length T = 512"
    "\<And>k. k < 512 \<Longrightarrow> T ! k =
               (if k < n then perm ! k
                else if 256 \<le> k \<and> k < 256 + n then perm ! (k - 256) else tbl ! k)"
    by (simp_all add: T_def)
  from Suc.prems have n: "n < 256" by simp
  have step: "fold (duplicate perm) [0 ..< Suc n] tbl = T[n := perm ! n, n + 256 := perm ! n]"
    by (simp add: T_def duplicate_def)
  show ?case
    unfolding step using IH n by (auto simp: nth_list_update)
qed

lemma initPermutation_table:
  assumes "length (p gs) = 512"
    and "shuffle (rand lc) 255 (map int [0 ..< 256], srand lc seed) = (perm, g')"
  shows "p (initPermutation lc seed gs) = perm @ perm"
proof (rule nth_equalityI)
  have len: "length perm = 256" using shuffle_entries(1) [OF assms(2)] .
  have tbl: "p (initPermutation lc seed gs) = fold (duplicate perm) [0 ..< 256] (p gs)"
    using assms(2) by (simp add: initPermutation_def Let_def)
  from fold_duplicate [OF order_refl assms(1), of perm]
  have f: "length (fold (duplicate perm) [0 ..< 256] (p gs)) = 512"
    "\<And>k. k < 512 \<Longrightarrow> fold (duplicate perm) [0 ..< 256] (p gs) ! k =
               (if k < 256 then perm ! k else perm ! (k - 256))"
    by auto
  show "length (p (initPermutation lc seed gs)) = length (perm @ perm)"
    using f(1) len tbl by simp
  fix i
  assume "i < length (p (initPermutation lc seed gs))"
  then have "i < 512" using f(1) tbl by simp
  from f(2) [OF this] show "p (initPermutation lc seed gs) ! i = (perm @ perm) ! i"
    using len tbl by (simp add: nth_append)
qed

lemma initPermutation_entries:
  assumes "length (p gs) = 512"
  shows "length (p (initPermutation lc seed gs)) = 512"
    and "\<forall>v \<in> set (p (initPermutation lc seed gs)). 0 \<le> v \<and> v \<le> 255"
proof -
  obtain perm g' where s: "shuffle (rand lc) 255 (map int [0 ..< 256], srand lc seed) = (perm, g')"
    by (cases "shuffle (rand lc) 255 (map int [0 ..< 256], srand lc seed)") auto
  note t = initPermutation_table [OF assms s]
  from shuffle_entries [OF s] t
  show "length (p (initPermutation lc seed gs)) = 512"
    and "\<forall>v \<in> set (p (initPermutation lc seed gs)). 0 \<le> v \<and> v \<le> 255"
    by auto
qed

lemma initPermutation_independent:
  assumes "length (p g1) = 512" "length (p g2) = 512"
  shows "initPermutation lc seed g1 = initPermutation lc seed g2"
proof -
  obtain perm g' where s: "shuffle (rand lc) 255 (map int [0 ..< 256], srand lc seed) = (perm, g')"
    by (cases "shuffle (rand lc) 255 (map int [0 ..< 256], srand lc seed)") auto
  have "p (initPermutation lc seed g1) = p (initPermutation lc seed g2)"
    using initPermutation_table [OF assms(1) s] initPermutation_table [OF assms(2) s] by simp
  moreover have "rand_state (initPermutation lc seed g1) = rand_state (initPermutation lc seed g2)"
    by (simp add: initPermutation_def Let_def split: prod.splits)
  ultimately show ?thesis by simp
qed

lemma p_read_ok:
  assumes "length tbl = 512" "\<forall>v \<in> set tbl. 0 \<le> v \<and> v \<le> 255" "0 \<le> i" "i \<le> 511"
  shows "\<exists>v. p_read tbl i = Some v \<and> 0 \<le> v \<and> v \<le> 255"
proof -
  have "nat i < length tbl" using assms(1,3,4) by simp
  then have "tbl ! nat i \<in> set tbl" by (rule nth_mem)
  with assms show ?thesis by (simp add: p_read_def)
qed

lemma cell_range: "0 \<le> (k :: int) AND 255 \<and> k AND 255 \<le> 255"
  by simp

lemma perlin_in_bounds:
  assumes "length tbl = 512" "\<forall>v \<in> set tbl. 0 \<le> v \<and> v \<le> 255"
  shows "\<exists>r. perlin tbl x y = Some r"
proof -
  define X where "X = \<lfloor>x\<rfloor> AND 255"
  define Y where "Y = \<lfloor>y\<rfloor> AND 255"
  have X: "0 \<le> X" "X \<le> 255" and Y: "0 \<le> Y" "Y \<le> 255"
    using cell_range by (simp_all add: X_def Y_def)
  note rd = p_read_ok [OF assms]
  from rd [of X] X obtain pX where pX: "p_read tbl X = Some pX" "0 \<le> pX" "pX \<le> 255" by auto
  from rd [of "X + 1"] X obtain pX1 where pX1: "p_read tbl (X + 1) = Some pX1" "0 \<le> pX1" "pX1 \<le> 255"
    by auto
  from rd [of "pX + Y"] pX Y obtain pA where pA: "p_read tbl (pX + Y) = Some pA" by auto
  from rd [of "pX1 + Y"] pX1 Y obtain pB where pB: "p_read tbl (pX1 + Y) = Some pB" by auto
  from rd [of "pX + Y + 1"] pX Y obtain pA1 where pA1: "p_read tbl (pX + Y + 1) = Some pA1" by auto
  from rd [of "pX1 + Y + 1"] pX1 Y obtain pB1 where pB1: "p_read tbl (pX1 + Y + 1) = Some pB1" by auto
  show ?thesis
    by (simp add: perlin_def Let_def X_def [symmetric] Y_def [symmetric] pX pX1 pA pB pA1 pB1)
qed

lemma generatePerlinNoiseTexture_state:
  "snd (generatePerlinNoiseTexture lc width height seed gs) = initPermutation lc seed gs"
  by (simp add: generatePerlinNoiseTexture_def Let_def)

lemma generatePerlinNoiseTexture_independent:
  assumes "length (p g1) = 512" "length (p g2) = 512"
  shows "generatePerlinNoiseTexture lc width height seed g1
           = generatePerlinNoiseTexture lc width height seed g2"
  unfolding generatePerlinNoiseTexture_def initPermutation_independent [OF assms] ..

lemma perlin_origin: "perlin tbl 0 0 = Some r \<Longrightarrow> r = 0"
  by (auto simp: perlin_def fade_def lerp_def grad_def Let_def split: option.splits)

lemma flat_noise:
  assumes "length (p gs) = 512"
  shows "fst (generatePerlinNoiseTexture lc 1 1 seed gs) = Inr [127]"
proof -
  from perlin_in_bounds [OF initPermutation_entries [OF assms, of lc seed], of 0 0]
  obtain r where r: "perlin (p (initPermutation lc seed gs)) 0 0 = Some r" by blast
  with perlin_origin have "perlin (p (initPermutation lc seed gs)) 0 0 = Some 0" by blast
  then show ?thesis
    by (simp add: generatePerlinNoiseTexture_def Let_def size_t_of_int_def byte_max_size_def
          writeTexel_def texel_def frequency_def)
qed

text \<open>
  C9. Two calls of generatePerlinNoiseTexture with the same width, height and seed
  return the same bytes, whatever the permutation table and the state of \<^verbatim>\<open>rand\<close>
  were before each call: initPermutation overwrites all 512 entries and reseeds the
  generator. In particular a second call right after the first returns what the first
  returned.
\<close>

theorem generatePerlinNoiseTexture_deterministic:
  assumes "length (p g1) = 512" and "length (p g2) = 512"
  shows "fst (generatePerlinNoiseTexture lc width height seed g1)
           = fst (generatePerlinNoiseTexture lc width height seed g2)
         \<and> fst (generatePerlinNoiseTexture lc width height seed
                  (snd (generatePerlinNoiseTexture lc width height seed g1)))
           = fst (generatePerlinNoiseTexture lc width height seed g1)"
proof -
  have "length (p (snd (generatePerlinNoiseTexture lc width height seed g1))) = 512"
    unfolding generatePerlinNoiseTexture_state using assms(1) by (rule initPermutation_entries(1))
  from generatePerlinNoiseTexture_independent [OF this assms(1)]
    generatePerlinNoiseTexture_independent [OF assms]
  show ?thesis by simp
qed

text \<open>The theorem at a zeroed table and at a table left by another run, for an 8 by 8 texture.\<close>

theorem generatePerlinNoiseTexture_deterministic_witness:
  "length (p \<lparr>p = replicate 512 0, rand_state = (0 :: nat)\<rparr>) = 512
   \<and> length (p \<lparr>p = replicate 512 9, rand_state = (5 :: nat)\<rparr>) = 512
   \<and> fst (generatePerlinNoiseTexture
            \<lparr>srand = unat, rand = (\<lambda>g. (g mod 32768, (g * 1103515245 + 12345) mod 2 ^ 31))\<rparr>
            8 8 7 \<lparr>p = replicate 512 0, rand_state = 0\<rparr>)
     = fst (generatePerlinNoiseTexture
            \<lparr>srand = unat, rand = (\<lambda>g. (g mod 32768, (g * 1103515245 + 12345) mod 2 ^ 31))\<rparr>
            8 8 7 \<lparr>p = replicate 512 9, rand_state = 5\<rparr>)"
proof -
  have a: "length (p \<lparr>p = replicate 512 0, rand_state = (0 :: nat)\<rparr>) = 512"
    and b: "length (p \<lparr>p = replicate 512 9, rand_state = (5 :: nat)\<rparr>) = 512"
    by simp_all
  from generatePerlinNoiseTexture_deterministic [OF a b, THEN conjunct1] a b
  show ?thesis by (intro conjI)
qed

text \<open>
  C10. After initPermutation the table has 512 entries, each from 0 to 255, and every
  read of the table in perlin, at \<open>X\<close>, \<open>X + 1\<close>, \<open>A\<close>, \<open>A + 1\<close>, \<open>B\<close> and
  \<open>B + 1\<close>, is within \<open>[0, 511]\<close>: perlin returns a number, for every point
  \<open>(x, y)\<close> and every seed.
\<close>

theorem perlin_reads_in_bounds:
  assumes "length (p gs) = 512"
  shows "length (p (initPermutation lc seed gs)) = 512
         \<and> (\<forall>v \<in> set (p (initPermutation lc seed gs)). 0 \<le> v \<and> v \<le> 255)
         \<and> (\<exists>r. perlin (p (initPermutation lc seed gs)) x y = Some r)"
  using initPermutation_entries [OF assms, of lc seed]
    perlin_in_bounds [OF initPermutation_entries [OF assms, of lc seed], of x y]
  by blast

text \<open>The theorem at the point (0.5, 3.7), for the seed 7 and a linear congruential \<^verbatim>\<open>rand\<close>.\<close>

theorem perlin_reads_in_bounds_witness:
  "length (p \<lparr>p = replicate 512 0, rand_state = (0 :: nat)\<rparr>) = 512
   \<and> (\<exists>r. perlin (p (initPermutation
            \<lparr>srand = unat, rand = (\<lambda>g. (g mod 32768, (g * 1103515245 + 12345) mod 2 ^ 31))\<rparr>
            7 \<lparr>p = replicate 512 0, rand_state = 0\<rparr>)) (1/2) (37/10) = Some r)"
proof -
  have a: "length (p \<lparr>p = replicate 512 0, rand_state = (0 :: nat)\<rparr>) = 512"
    by simp
  from perlin_reads_in_bounds [OF a] a
  show ?thesis by blast
qed

section \<open>Properties of the fragment shader\<close>

text \<open>
  C7. For every point strictly outside every cloud sphere (\<open>sdCloud > 0\<close>), whatever
  the time and the noise texture, cloudDensity is 0.
\<close>

theorem cloudDensity_outside:
  assumes "sdCloud U pos > 0"
  shows "cloudDensity U pos = 0"
  using assms by (simp add: cloudDensity_def Let_def)

text \<open>
  The theorem at the point (2, 0, 0) of the unit scene, at distance 1 from the sphere;
  at the origin, inside the sphere, the density of that scene is 1.
\<close>

theorem cloudDensity_outside_witness:
  "sdCloud unit_scene (2, 0, 0) > 0 \<and> cloudDensity unit_scene (2, 0, 0) = 0
   \<and> cloudDensity unit_scene (0, 0, 0) = 1"
proof -
  have out: "sdCloud unit_scene (2, 0, 0) > 0"
    by (simp add: unit_scene_def sdCloud_def vlength_def)
  have inside: "cloudDensity unit_scene (0, 0, 0) = 1"
    by (simp add: unit_scene_def cloudDensity_def sdCloud_def vlength_def smoothstep_def
          clamp_def Let_def)
  from cloudDensity_outside [OF out] out inside show ?thesis by (intro conjI)
qed

text \<open>
  For the camera of \<^verbatim>\<open>main\<close> the ray points towards the bounding sphere, so the far
  intersection of a ray that hits is never behind the camera.
\<close>

lemma camera_b_nonpos: "hit_b U (cameraOrigin U) (cameraDir U tc) \<le> 0"
proof -
  obtain cx cy cz where c: "uBoundingSphereCenter U = (cx, cy, cz)"
    by (cases "uBoundingSphereCenter U") auto
  obtain tx ty where tc: "tc = (tx, ty)" by (cases tc) auto
  define R where "R = uBoundingSphereRadius U"
  define len where "len = vlength ((tx * 2 - 1) * R, (ty * 2 - 1) * R, - (R * 2))"
  have len: "0 \<le> len" by (simp add: len_def vlength_def)
  have "hit_b U (cameraOrigin U) (cameraDir U tc) = - (4 * R * R) * (1 / len)"
    by (simp add: hit_b_def cameraOrigin_def cameraDir_def c tc normalize_def Let_def
          R_def [symmetric] len_def [symmetric] mult.assoc)
  also have "\<dots> \<le> 0" using len by (simp add: mult_nonneg_nonneg divide_nonneg_nonneg)
  finally show ?thesis .
qed

lemma camera_t2_nonneg:
  assumes "\<not> hit_det U (cameraOrigin U) (cameraDir U tc) < 0"
  shows "\<not> hit_t2 U (cameraOrigin U) (cameraDir U tc) < 0"
proof -
  have "0 \<le> sqrt (hit_det U (cameraOrigin U) (cameraDir U tc))" using assms by simp
  with camera_b_nonpos [of U tc] show ?thesis unfolding hit_t2_def by linarith
qed

text \<open>
  C6. A primary ray that misses the bounding sphere (negative discriminant), or whose
  far intersection \<open>t2\<close> is behind the camera, gets exactly the background colour
  (0.6, 0.6, 0.6, 1.0); every other ray gets the colour of the marching loop, so these
  are the only two exits before the loop. The colour of a pixel is the colour of its
  camera ray.
\<close>

theorem shadeRay_early_exits:
  "(hit_det U ro rd < 0 \<longrightarrow> shadeRay U ro rd = background)
   \<and> (\<not> hit_det U ro rd < 0 \<and> hit_t2 U ro rd < 0 \<longrightarrow> shadeRay U ro rd = background)
   \<and> (\<not> hit_det U ro rd < 0 \<and> \<not> hit_t2 U ro rd < 0 \<longrightarrow> shadeRay U ro rd = marchRay U ro rd)
   \<and> background = (0.6, 0.6, 0.6, 1.0)
   \<and> fragment_main U vTexCoord = shadeRay U (cameraOrigin U) (cameraDir U vTexCoord)"
  by (simp add: shadeRay_def background_def fragment_main_def)

text \<open>
  The theorem in the unit scene, from the point (0, 0, 2): a ray along \<open>y\<close> misses, a
  ray along \<open>+z\<close> has the sphere behind it, a ray along \<open>-z\<close> marches; and the corner
  pixel (1, 1), whose camera ray misses.
\<close>

theorem shadeRay_early_exits_witness:
  "hit_det unit_scene (0, 0, 2) (0, 1, 0) < 0
   \<and> shadeRay unit_scene (0, 0, 2) (0, 1, 0) = background
   \<and> \<not> hit_det unit_scene (0, 0, 2) (0, 0, 1) < 0
   \<and> hit_t2 unit_scene (0, 0, 2) (0, 0, 1) < 0
   \<and> shadeRay unit_scene (0, 0, 2) (0, 0, 1) = background
   \<and> \<not> hit_det unit_scene (0, 0, 2) (0, 0, - 1) < 0
   \<and> \<not> hit_t2 unit_scene (0, 0, 2) (0, 0, - 1) < 0
   \<and> shadeRay unit_scene (0, 0, 2) (0, 0, - 1) = marchRay unit_scene (0, 0, 2) (0, 0, - 1)
   \<and> hit_det unit_scene (cameraOrigin unit_scene) (cameraDir unit_scene (1, 1)) < 0
   \<and> fragment_main unit_scene (1, 1) = (0.6, 0.6, 0.6, 1.0)"
proof -
  have miss: "hit_det unit_scene (0, 0, 2) (0, 1, 0) < 0"
    by (simp add: unit_scene_def hit_det_def hit_b_def Let_def)
  have behind: "\<not> hit_det unit_scene (0, 0, 2) (0, 0, 1) < 0"
    "hit_t2 unit_scene (0, 0, 2) (0, 0, 1) < 0"
    by (simp_all add: unit_scene_def hit_det_def hit_b_def hit_t2_def Let_def)
  have hit: "\<not> hit_det unit_scene (0, 0, 2) (0, 0, - 1) < 0"
    "\<not> hit_t2 unit_scene (0, 0, 2) (0, 0, - 1) < 0"
    by (simp_all add: unit_scene_def hit_det_def hit_b_def hit_t2_def Let_def)
  have corner: "hit_det unit_scene (cameraOrigin unit_scene) (cameraDir unit_scene (1, 1)) < 0"
    by (simp add: unit_scene_def hit_det_def hit_b_def Let_def cameraOrigin_def cameraDir_def
          normalize_def vlength_def)
  note e1 = shadeRay_early_exits [of unit_scene "(0, 0, 2)" "(0, 1, 0)" "(1, 1)"]
  note e2 = shadeRay_early_exits [of unit_scene "(0, 0, 2)" "(0, 0, 1)" "(1, 1)"]
  note e3 = shadeRay_early_exits [of unit_scene "(0, 0, 2)" "(0, 0, - 1)" "(1, 1)"]
  note e4 = shadeRay_early_exits
    [of unit_scene "cameraOrigin unit_scene" "cameraDir unit_scene (1, 1)" "(1, 1)"]
  have c1: "shadeRay unit_scene (0, 0, 2) (0, 1, 0) = background"
    using e1 miss by blast
  have c2: "shadeRay unit_scene (0, 0, 2) (0, 0, 1) = background"
    using e2 behind by blast
  have c3: "shadeRay unit_scene (0, 0, 2) (0, 0, - 1) = marchRay unit_scene (0, 0, 2) (0, 0, - 1)"
    using e3 hit by blast
  have c4: "fragment_main unit_scene (1, 1) = (0.6, 0.6, 0.6, 1.0)"
    using e4 corner by metis
  from miss c1 behind c2 hit c3 corner c4 show ?thesis by (intro conjI)
qed

lemma marchBody_transmittance:
  assumes "0 \<le> marchStep" "0 \<le> T"
  shows "0 \<le> snd (fst (marchBody U ro rd tNear marchStep i (C, T)))
         \<and> snd (fst (marchBody U ro rd tNear marchStep i (C, T))) \<le> T"
proof (cases "cloudDensity U (vadd ro (smul (tNear + real i * marchStep) rd)) > 0.001")
  case True
  define dens where "dens = cloudDensity U (vadd ro (smul (tNear + real i * marchStep) rd))"
  have "0 \<le> dens" using True by (simp add: dens_def)
  then have "0 \<le> dens * (sigma_a + sigma_s) * marchStep"
    using assms(1) by (simp add: sigma_a_def sigma_s_def)
  then have e: "exp (- (dens * (sigma_a + sigma_s) * marchStep)) \<le> 1" by simp
  have "T * exp (- (dens * (sigma_a + sigma_s) * marchStep)) \<le> T * 1"
    using e assms(2) by (rule mult_left_mono)
  moreover have "0 \<le> T * exp (- (dens * (sigma_a + sigma_s) * marchStep))"
    using assms(2) by simp
  ultimately show ?thesis
    using True by (simp add: marchBody_def Let_def dens_def)
next
  case False
  then show ?thesis using assms(2) by (simp add: marchBody_def Let_def)
qed

lemma marchLoop_transmittance_step:
  assumes "0 \<le> marchStep"
  shows "0 \<le> snd st \<Longrightarrow>
         snd (marchLoop U ro rd tNear marchStep (Suc k) i st)
           \<le> snd (marchLoop U ro rd tNear marchStep k i st)"
proof (induction k arbitrary: i st)
  case 0
  obtain C T where st: "st = (C, T)" by (cases st) auto
  from marchBody_transmittance [OF assms, of T U ro rd tNear i C] 0 st
  show ?case by (auto split: prod.splits)
next
  case (Suc k)
  obtain C T where st: "st = (C, T)" by (cases st) auto
  obtain st' stop where b: "marchBody U ro rd tNear marchStep i st = (st', stop)"
    by (cases "marchBody U ro rd tNear marchStep i st") auto
  from marchBody_transmittance [OF assms, of T U ro rd tNear i C] Suc.prems st b
  have nn: "0 \<le> snd st'" by simp
  show ?case
  proof (cases stop)
    case True
    with b show ?thesis by simp
  next
    case False
    from Suc.IH [OF nn, of "Suc i"] b False show ?thesis by simp
  qed
qed

lemma marchStep_nonneg:
  assumes "\<not> hit_det U ro rd < 0" "\<not> hit_t2 U ro rd < 0"
  shows "0 \<le> (hit_t2 U ro rd - max (hit_t1 U ro rd) 0) / real STEPS"
proof -
  have "0 \<le> sqrt (hit_det U ro rd)" using assms(1) by simp
  then have "hit_t1 U ro rd \<le> hit_t2 U ro rd" by (simp add: hit_t1_def hit_t2_def)
  with assms(2) have "max (hit_t1 U ro rd) 0 \<le> hit_t2 U ro rd" by simp
  then show ?thesis by (simp add: STEPS_def)
qed

text \<open>
  C8. Along a primary ray that enters the marching loop (the discriminant and the far
  intersection are not negative), with \<open>tNear\<close> and \<open>marchStep\<close> as \<^verbatim>\<open>main\<close> computes
  them, the transmittance is 1 before the first round, and after round \<open>k + 1\<close> it is
  at most what it was after round \<open>k\<close>, for each of the 64 rounds.
\<close>

theorem transmittance_nonincreasing:
  assumes "\<not> hit_det U ro rd < 0" and "\<not> hit_t2 U ro rd < 0"
    and "tNear = max (hit_t1 U ro rd) 0"
    and "marchStep = (hit_t2 U ro rd - tNear) / real STEPS"
  shows "snd (marchLoop U ro rd tNear marchStep 0 0 ((0, 0, 0), 1)) = 1
         \<and> (\<forall>k < STEPS.
               snd (marchLoop U ro rd tNear marchStep (Suc k) 0 ((0, 0, 0), 1))
                 \<le> snd (marchLoop U ro rd tNear marchStep k 0 ((0, 0, 0), 1)))"
proof -
  have ms: "0 \<le> marchStep"
    unfolding assms(3,4) using marchStep_nonneg [OF assms(1,2)] .
  show ?thesis
    using marchLoop_transmittance_step [OF ms, of "((0, 0, 0), 1)"] by simp
qed

text \<open>
  The theorem in the unit scene for the ray from (0, 0, 2) along \<open>-z\<close>, which enters the
  sphere at \<open>t = 1\<close> and leaves it at \<open>t = 3\<close>, at the rounds 5 and 6.
\<close>

theorem transmittance_nonincreasing_witness:
  "\<not> hit_det unit_scene (0, 0, 2) (0, 0, - 1) < 0
   \<and> \<not> hit_t2 unit_scene (0, 0, 2) (0, 0, - 1) < 0
   \<and> max (hit_t1 unit_scene (0, 0, 2) (0, 0, - 1)) 0 = 1
   \<and> (hit_t2 unit_scene (0, 0, 2) (0, 0, - 1) - 1) / real STEPS = 1 / 32
   \<and> 5 < STEPS
   \<and> snd (marchLoop unit_scene (0, 0, 2) (0, 0, - 1) 1 (1 / 32) 0 0 ((0, 0, 0), 1)) = 1
   \<and> snd (marchLoop unit_scene (0, 0, 2) (0, 0, - 1) 1 (1 / 32) (Suc 5) 0 ((0, 0, 0), 1))
       \<le> snd (marchLoop unit_scene (0, 0, 2) (0, 0, - 1) 1 (1 / 32) 5 0 ((0, 0, 0), 1))"
proof -
  have hit: "\<not> hit_det unit_scene (0, 0, 2) (0, 0, - 1) < 0"
    "\<not> hit_t2 unit_scene (0, 0, 2) (0, 0, - 1) < 0"
    by (simp_all add: unit_scene_def hit_det_def hit_b_def hit_t2_def Let_def)
  have near: "max (hit_t1 unit_scene (0, 0, 2) (0, 0, - 1)) 0 = 1"
    by (simp add: unit_scene_def hit_det_def hit_b_def hit_t1_def Let_def)
  have stp: "(hit_t2 unit_scene (0, 0, 2) (0, 0, - 1) - 1) / real STEPS = 1 / 32"
    by (simp add: unit_scene_def hit_det_def hit_b_def hit_t2_def Let_def STEPS_def)
  have k: "5 < STEPS" by (simp add: STEPS_def)
  note t = transmittance_nonincreasing [OF hit near [symmetric] stp [symmetric]]
  from t have t0: "snd (marchLoop unit_scene (0, 0, 2) (0, 0, - 1) 1 (1 / 32) 0 0 ((0, 0, 0), 1)) = 1"
    by (rule conjunct1)
  from t k
  have t5: "snd (marchLoop unit_scene (0, 0, 2) (0, 0, - 1) 1 (1 / 32) (Suc 5) 0 ((0, 0, 0), 1))
       \<le> snd (marchLoop unit_scene (0, 0, 2) (0, 0, - 1) 1 (1 / 32) 5 0 ((0, 0, 0), 1))"
    by blast
  from hit near stp k t0 t5 show ?thesis by (intro conjI)
qed

end
